theory Spec2Isabelle
  imports Complex_Main "HOL-Library.Multiset"
begin

section \<open>Python values shared by the modules\<close>

text \<open>
  Exceptions of Python's \<open>Exception\<close> hierarchy, each with the text \<open>str(e)\<close> gives.
  \<open>OtherError\<close> stands for what the external libraries raise (yt-dlp, the file system).
  \<open>MarkupError\<close> is what rich raises when a text it renders holds a closing tag that
  matches no open tag; its message, which quotes the tag and its position, is not
  modelled. The other markup error of rich, on a link tag whose handler does not parse, is
  not modelled. Interrupts (\<open>KeyboardInterrupt\<close>, \<open>SystemExit\<close>) are outside
  \<open>Exception\<close> and are not modelled.
\<close>

datatype py_exception =
    TypeError string
  | IndexError string
  | AttributeError string
  | ValueError string
  | MarkupError
  | OtherError string

fun exn_str :: "py_exception \<Rightarrow> string" where
  "exn_str (TypeError m) = m"
| "exn_str (IndexError m) = m"
| "exn_str (AttributeError m) = m"
| "exn_str (ValueError m) = m"
| "exn_str MarkupError = ''closing tag does not match any open tag''"
| "exn_str (OtherError m) = m"

text \<open>
  One key of a dictionary that comes from outside: the key is missing, it holds \<open>None\<close>,
  or it holds a value. \<open>dict_get\<close> is \<open>d.get(k)\<close> and \<open>dict_get_default\<close> is
  \<open>d.get(k, default)\<close>; \<open>None\<close> of Python is \<open>None\<close> of the option type.
\<close>

datatype 'a entry = Absent | PyNone | Value 'a

fun dict_get :: "'a entry \<Rightarrow> 'a option" where
  "dict_get Absent = None"
| "dict_get PyNone = None"
| "dict_get (Value v) = Some v"

fun dict_get_default :: "'a entry \<Rightarrow> 'a \<Rightarrow> 'a option" where
  "dict_get_default Absent d = Some d"
| "dict_get_default PyNone d = None"
| "dict_get_default (Value v) d = Some v"

text \<open>Truth value of an optional string (\<open>if direct_url:\<close>): \<open>None\<close> and \<open>""\<close> are false.\<close>

definition truthy :: "string option \<Rightarrow> bool" where
  "truthy u = (case u of None \<Rightarrow> False | Some s \<Rightarrow> s \<noteq> [])"

text \<open>\<open>str(n)\<close> of an integer, in decimal.\<close>

definition digit_char :: "nat \<Rightarrow> char" where
  "digit_char d = ''0123456789'' ! (d mod 10)"

function digits :: "nat \<Rightarrow> string" where
  "digits n = (if n < 10 then [digit_char n] else digits (n div 10) @ [digit_char n])"
  by pat_completeness auto
termination
  by (relation "measure id") auto

definition str_int :: "int \<Rightarrow> string" where
  "str_int i = (if i < 0 then ''-'' @ digits (nat (- i)) else digits (nat i))"

section \<open>modules/url\_resolver.py\<close>

text \<open>
  The keys of yt-dlp's info dictionary that \<open>get_direct_url\<close> reads. Each format of
  \<open>requested_formats\<close> is reduced to its \<open>url\<close> key, the only one read.
\<close>

record info =
  i_url :: "string entry"
  i_requested_formats :: "string entry list entry"
  i_width :: "int entry"
  i_height :: "int entry"
  i_filesize :: "int entry"
  i_filesize_approx :: "int entry"
  i_ext :: "string entry"
  i_format_note :: "string entry"
  i_vcodec :: "string entry"
  i_acodec :: "string entry"

text \<open>
  What \<open>YoutubeDL(opts).extract_info(video_url, download=False)\<close> does: it raises, or it
  returns; \<open>Returns None\<close> is a falsy return (\<open>None\<close>, or an empty dictionary).
\<close>

datatype ydl_outcome = Raises py_exception | Returns "info option"

record format_info =
  resolution :: string
  filesize :: "int option"
  ext :: "string option"
  format_note :: "string option"
  vcodec :: "string option"
  acodec :: "string option"
  filesize_str :: "string option"

definition video_url_of :: "string \<Rightarrow> string" where
  "video_url_of video_id = ''https://www.youtube.com/watch?v='' @ video_id"

definition format_selectors :: "string \<Rightarrow> string" where
  "format_selectors quality_preference =
     (if quality_preference = ''1080p'' then
        ''bestvideo[height<=1080][ext=mp4]+bestaudio[ext=m4a]/best[height<=1080][ext=mp4]/best[ext=mp4]/best''
      else if quality_preference = ''720p'' then
        ''bestvideo[height<=720][ext=mp4]+bestaudio[ext=m4a]/best[height<=720][ext=mp4]/best[ext=mp4]/best''
      else ''bestvideo[ext=mp4]+bestaudio[ext=m4a]/best[ext=mp4]/best'')"

text \<open>\<open>f"{info.get('width', 'N/A')}"\<close>: the default, \<open>None\<close>, or the number.\<close>

fun show_dim :: "int entry \<Rightarrow> string" where
  "show_dim Absent = ''N/A''"
| "show_dim PyNone = ''None''"
| "show_dim (Value n) = str_int n"

text \<open>\<open>info.get('filesize') or info.get('filesize_approx', 0)\<close>.\<close>

definition filesize_of :: "info \<Rightarrow> int option" where
  "filesize_of i =
     (case dict_get (i_filesize i) of
        Some n \<Rightarrow> if n \<noteq> 0 then Some n else dict_get_default (i_filesize_approx i) 0
      | None \<Rightarrow> dict_get_default (i_filesize_approx i) 0)"

definition build_format_info :: "info \<Rightarrow> format_info" where
  "build_format_info i =
     \<lparr> resolution = show_dim (i_width i) @ ''x'' @ show_dim (i_height i),
       filesize = filesize_of i,
       ext = dict_get_default (i_ext i) ''mp4'',
       format_note = dict_get_default (i_format_note i) ''unknown'',
       vcodec = dict_get_default (i_vcodec i) ''unknown'',
       acodec = dict_get_default (i_acodec i) ''unknown'',
       filesize_str = None \<rparr>"

type_synonym resolved = "string option \<times> format_info option"

text \<open>
  The body of the \<open>try\<close> block of \<open>get_direct_url\<close>. The argument \<open>ydl\<close> is the external
  service: the outcome of \<open>extract_info\<close> for a video URL and a format selector.
  \<open>info['requested_formats'][0]\<close> raises on \<open>None\<close> and on an empty list.
\<close>

definition get_direct_url_try ::
  "(string \<Rightarrow> string \<Rightarrow> ydl_outcome) \<Rightarrow> string \<Rightarrow> string \<Rightarrow> py_exception + resolved" where
  "get_direct_url_try ydl video_id quality_preference =
     (case ydl (video_url_of video_id) (format_selectors quality_preference) of
        Raises e \<Rightarrow> Inl e
      | Returns None \<Rightarrow> Inr (None, None)
      | Returns (Some i) \<Rightarrow>
          (let direct_url = dict_get (i_url i) in
           if \<not> truthy direct_url \<and> i_requested_formats i \<noteq> Absent then
             (case i_requested_formats i of
                Absent \<Rightarrow> Inr (direct_url, Some (build_format_info i))
              | PyNone \<Rightarrow> Inl (TypeError ''NoneType object is not subscriptable'')
              | Value [] \<Rightarrow> Inl (IndexError ''list index out of range'')
              | Value (video_format # _) \<Rightarrow>
                  Inr (dict_get video_format, Some (build_format_info i)))
           else Inr (direct_url, Some (build_format_info i))))"

text \<open>\<open>get_direct_url\<close>: the \<open>try\<close> block, and \<open>except Exception: return None, None\<close>.\<close>

definition get_direct_url ::
  "(string \<Rightarrow> string \<Rightarrow> ydl_outcome) \<Rightarrow> string \<Rightarrow> string \<Rightarrow> py_exception + resolved" where
  "get_direct_url ydl video_id quality_preference =
     (case get_direct_url_try ydl video_id quality_preference of
        Inl e \<Rightarrow> Inr (None, None)
      | Inr r \<Rightarrow> Inr r)"

text \<open>
  \<open>f"{x:.1f}"\<close>: one decimal, ties to even. Sizes are integers and the divisor is a power
  of two, so the quotients the loop forms are exact and are modelled as rationals.
\<close>

definition round_half_even :: "rat \<Rightarrow> int" where
  "round_half_even x =
     (let f = \<lfloor>x\<rfloor>; r = x - of_int f in
      if r < 1 / 2 then f
      else if 1 / 2 < r then f + 1
      else if even f then f else f + 1)"

definition fmt_1f :: "rat \<Rightarrow> string" where
  "fmt_1f x =
     (let t = nat (round_half_even (\<bar>x\<bar> * 10)) in
      (if x < 0 then ''-'' else '''') @ digits (t div 10) @ ''.'' @ [digit_char (t mod 10)])"

fun format_units :: "rat \<Rightarrow> string list \<Rightarrow> string" where
  "format_units size_bytes [] = fmt_1f size_bytes @ '' TB''"
| "format_units size_bytes (unit # units) =
     (if size_bytes < 1024 then fmt_1f size_bytes @ '' '' @ unit
      else format_units (size_bytes / 1024) units)"

text \<open>
  \<open>format_filesize\<close>. The orchestrators pass \<open>format_info.get('filesize', 0)\<close>, which is
  \<open>None\<close> when the info dictionary holds \<open>None\<close> there: \<open>None == 0\<close> is false and
  \<open>None < 1024.0\<close> raises.
\<close>

fun format_filesize :: "int option \<Rightarrow> py_exception + string" where
  "format_filesize None =
     Inl (TypeError ''< not supported between instances of NoneType and float'')"
| "format_filesize (Some size_bytes) =
     (if size_bytes = 0 then Inr ''Unknown''
      else Inr (format_units (of_int size_bytes) [''B'', ''KB'', ''MB'', ''GB'']))"

section \<open>modules/output\_formatter.py\<close>

definition invalid_chars :: string where
  "invalid_chars =
     [CHR ''<'', CHR ''>'', CHR '':'', CHR 0x22, CHR ''/'', CHR 0x5C, CHR ''|'', CHR ''?'', CHR ''*'']"

definition replace_char :: "char \<Rightarrow> char \<Rightarrow> string \<Rightarrow> string" where
  "replace_char old new s = map (\<lambda>c. if c = old then new else c) s"

text \<open>\<open>s.strip(chars)\<close>: drops the characters of \<open>chars\<close> from both ends.\<close>

definition strip :: "string \<Rightarrow> string \<Rightarrow> string" where
  "strip chars s =
     rev (dropWhile (\<lambda>c. c \<in> set chars) (rev (dropWhile (\<lambda>c. c \<in> set chars) s)))"

definition sanitize_filename :: "string \<Rightarrow> string" where
  "sanitize_filename filename =
     (let f1 = fold (\<lambda>char f. replace_char char (CHR ''_'') f) invalid_chars filename;
          f2 = strip ''. '' f1;
          f3 = (if length f2 > 200 then take 200 f2 else f2)
      in if f3 = [] then ''output'' else f3)"

text \<open>
  \<open>generate_output_filename\<close>. The title is what \<open>get_playlist_title\<close> returned, which
  may be \<open>None\<close>; then \<open>filename.replace\<close> raises. \<open>now\<close> is
  \<open>datetime.now().strftime("%Y%m%d_%H%M%S")\<close>.
\<close>

definition generate_output_filename :: "string \<Rightarrow> string option \<Rightarrow> py_exception + string" where
  "generate_output_filename now playlist_title =
     (case playlist_title of
        None \<Rightarrow> Inl (AttributeError ''NoneType object has no attribute replace'')
      | Some t \<Rightarrow> Inr (sanitize_filename t @ ''_'' @ now @ ''.txt''))"

record video_entry =
  vd_title :: string
  vd_url :: string
  vd_format_info :: "format_info option"

text \<open>
  \<open>write_to_file\<close> returns the number of entries with a URL, or raises what the file
  system raises (\<open>io\<close>). The text written to the file is not modelled.
\<close>

definition write_to_file ::
  "py_exception option \<Rightarrow> video_entry list \<Rightarrow> string \<Rightarrow> string option \<Rightarrow> py_exception + nat" where
  "write_to_file io video_data output_path playlist_title =
     (case io of
        Some e \<Rightarrow> Inl e
      | None \<Rightarrow> Inr (length (filter (\<lambda>v. vd_url v \<noteq> []) video_data)))"

section \<open>The external collaborators of a run\<close>

record video =
  v_id :: string
  v_title :: string

text \<open>
  The texts that the orchestrators hand to rich with a part that comes from outside;
  rich renders them as markup. Each constructor is one \<open>console.print\<close>, named with
  its variable part:
  \<^item> \<open>FoundPlaylist\<close>: \<open>"Found playlist: [bold]{playlist_title}[/bold]"\<close>, where a
    title \<open>None\<close> prints as \<open>None\<close>;
  \<^item> \<open>ResolvingQuality\<close>: \<open>"Resolving direct URLs (quality: {quality})..."\<close>;
  \<^item> \<open>Processing\<close>: the description \<open>"[cyan]Processing: {video_title[:40]}..."\<close> of
    the progress bar;
  \<^item> \<open>FailedVideo\<close>: \<open>"Failed: {video_title}"\<close>;
  \<^item> \<open>ErrorMessage\<close>: \<open>"{error_msg}"\<close>;
  \<^item> \<open>WroteFile\<close>: \<open>"Successfully wrote {url_count} URLs to: [bold]{output_path}[/bold]"\<close>;
  \<^item> \<open>SummaryLine\<close>: \<open>"  - {failed}"\<close>.
  The prints of fixed texts and of numbers cannot raise and are left out.
\<close>

datatype message =
    FoundPlaylist "string option"
  | ResolvingQuality string
  | Processing string
  | FailedVideo string
  | ErrorMessage string
  | WroteFile nat string
  | SummaryLine string

text \<open>
  Everything a run receives from outside. \<open>env_ydl e idx attempt\<close> is the service's behaviour
  at attempt number \<open>attempt\<close> (from 0) on the \<open>idx\<close>-th video of the playlist (from 1):
  any run, sequential or concurrent, meets exactly one such family of answers.
  \<open>env_console e m\<close> holds when rich raises \<open>MarkupError\<close> on the text \<open>m\<close>.
  The delay is taken to be a value that \<open>time.sleep\<close> accepts (\<open>main\<close> raises it to
  0.5 at least): a sleep is an event of the trace and does not raise.
\<close>

record env =
  env_title :: "string option"
  env_videos :: "py_exception + video list"
  env_ydl :: "nat \<Rightarrow> nat \<Rightarrow> string \<Rightarrow> string \<Rightarrow> ydl_outcome"
  env_io_error :: "py_exception option"
  env_now :: string
  env_console :: "message \<Rightarrow> bool"

datatype event = GetDirectUrl string string | Sleep rat | WriteFile string

record result =
  success :: bool
  output_file :: "string option"
  total_videos :: int
  successful :: int
  failed :: int
  errors :: "string list"

text \<open>
  The variables of \<open>process_playlist\<close>, and the calls made so far. In the concurrent
  orchestrator the calls are grouped by video, in the order of submission: the
  interleaving of the worker threads is not modelled.
\<close>

record run_state =
  res :: result
  video_data :: "video_entry list"
  failed_videos :: "string list"
  trace :: "event list"

definition initial_state :: run_state where
  "initial_state =
     \<lparr> res = \<lparr> success = False, output_file = None, total_videos = 0,
               successful = 0, failed = 0, errors = [] \<rparr>,
       video_data = [], failed_videos = [], trace = [] \<rparr>"

definition add_error :: "string \<Rightarrow> run_state \<Rightarrow> run_state" where
  "add_error error_msg st = st\<lparr>res := (res st)\<lparr>errors := errors (res st) @ [error_msg]\<rparr>\<rparr>"

definition append_success :: "video_entry \<Rightarrow> run_state \<Rightarrow> run_state" where
  "append_success v st =
     st\<lparr>video_data := video_data st @ [v],
        res := (res st)\<lparr>successful := successful (res st) + 1\<rparr>\<rparr>"

definition append_failure :: "string \<Rightarrow> run_state \<Rightarrow> run_state" where
  "append_failure video_title st =
     st\<lparr>failed_videos := failed_videos st @ [video_title],
        res := (res st)\<lparr>failed := failed (res st) + 1\<rparr>\<rparr>"

text \<open>
  The \<open>except\<close> branches of \<open>process_playlist\<close>: the message is added to the errors
  and printed, and the report is returned. When the exception is a \<open>MarkupError\<close> its
  message quotes the tag that matched no open tag, so that printing it raises again.
\<close>

definition report_error :: "env \<Rightarrow> string \<Rightarrow> py_exception \<Rightarrow> run_state \<Rightarrow> py_exception + run_state" where
  "report_error e prefix ex st =
     (let error_msg = prefix @ exn_str ex in
      if ex = MarkupError \<or> env_console e (ErrorMessage error_msg) then Inl MarkupError
      else Inr (add_error error_msg st))"

section \<open>The retry loop of both orchestrators\<close>

text \<open>
  \<open>for attempt in range(max_retries)\<close>, as it stands in \<open>process_playlist\<close> of
  orchestrator.py and in \<open>_resolve_video_url\<close> of orchestrator\_async.py; the two copies
  differ in the argument of \<open>time.sleep\<close> only, here \<open>backoff\<close>. The list holds the
  attempts still to run, \<open>break\<close> ends the recursion.
\<close>

fun retry_loop ::
  "rat \<Rightarrow> int \<Rightarrow> (nat \<Rightarrow> string \<Rightarrow> string \<Rightarrow> ydl_outcome) \<Rightarrow> string \<Rightarrow> string \<Rightarrow>
   nat list \<Rightarrow> resolved \<times> event list \<Rightarrow> py_exception + resolved \<times> event list" where
  "retry_loop backoff max_retries ydl video_id quality [] st = Inr st"
| "retry_loop backoff max_retries ydl video_id quality (attempt # rest) (r, tr) =
     (case get_direct_url (ydl attempt) video_id quality of
        Inl e \<Rightarrow> Inl e
      | Inr (direct_url, format_info) \<Rightarrow>
          if truthy direct_url
          then Inr ((direct_url, format_info), tr @ [GetDirectUrl video_id quality])
          else retry_loop backoff max_retries ydl video_id quality rest
                 ((direct_url, format_info),
                  tr @ [GetDirectUrl video_id quality] @
                  (if int attempt < max_retries - 1 then [Sleep backoff] else [])))"

text \<open>\<open>if format_info: format_info['filesize_str'] = format_filesize(...)\<close>.\<close>

definition add_filesize_str :: "format_info option \<Rightarrow> py_exception + format_info option" where
  "add_filesize_str format_info =
     (case format_info of
        None \<Rightarrow> Inr None
      | Some fi \<Rightarrow>
          (case format_filesize (filesize fi) of
             Inl e \<Rightarrow> Inl e
           | Inr s \<Rightarrow> Inr (Some (fi\<lparr>filesize_str := Some s\<rparr>))))"

section \<open>modules/orchestrator.py\<close>

text \<open>
  One turn of \<open>for idx, video in enumerate(videos, 1)\<close>; \<open>n\<close> is \<open>len(videos)\<close> and
  \<open>console\<close> tells which prints raise. The title of a failed video is printed after
  it is counted. \<open>progress.update\<close> only stores the description, see \<open>leave_progress\<close>.
  (On a terminal the print of a failed title also redraws the progress bar, with the
  description of the same video: a closing tag that matches nothing after \<open>[cyan]\<close>
  matches nothing in the printed line either, so the print decides.)
\<close>

definition failed_video ::
  "(message \<Rightarrow> bool) \<Rightarrow> string \<Rightarrow> event list \<Rightarrow> run_state \<Rightarrow> py_exception + run_state" where
  "failed_video console video_title tr st =
     (if console (FailedVideo video_title) then Inl MarkupError
      else Inr ((append_failure video_title st)\<lparr>trace := tr\<rparr>))"

definition process_video ::
  "(message \<Rightarrow> bool) \<Rightarrow> (nat \<Rightarrow> string \<Rightarrow> string \<Rightarrow> ydl_outcome) \<Rightarrow> string \<Rightarrow> rat \<Rightarrow> int \<Rightarrow>
   nat \<Rightarrow> nat \<Rightarrow> video \<Rightarrow> run_state \<Rightarrow> py_exception + run_state" where
  "process_video console ydl quality delay max_retries n idx video st =
     (case retry_loop (delay * (1 / 2)) max_retries ydl (v_id video) quality
             [0..<nat max_retries] ((None, None), trace st) of
        Inl e \<Rightarrow> Inl e
      | Inr ((direct_url, format_info), tr) \<Rightarrow>
          (let pause = (if idx < n then [Sleep delay] else []) in
           case direct_url of
             None \<Rightarrow> failed_video console (v_title video) (tr @ pause) st
           | Some u \<Rightarrow>
               if u = [] then failed_video console (v_title video) (tr @ pause) st
               else
                 (case add_filesize_str format_info of
                    Inl e \<Rightarrow> Inl e
                  | Inr fi \<Rightarrow>
                      Inr ((append_success
                              \<lparr>vd_title = v_title video, vd_url = u, vd_format_info = fi\<rparr> st)
                           \<lparr>trace := tr @ pause\<rparr>))))"

text \<open>
  Leaving the \<open>with Progress\<close> block, after the last video or with an exception: rich
  refreshes the display a last time and renders the description that \<open>progress.update\<close>
  stored last, the one of the video the loop was at. (Between the videos the display is
  refreshed by a thread of rich, whose exceptions do not reach the loop.)
\<close>

definition leave_progress ::
  "(message \<Rightarrow> bool) \<Rightarrow> video \<Rightarrow> py_exception + run_state \<Rightarrow> py_exception + run_state" where
  "leave_progress console video r =
     (if console (Processing (take 40 (v_title video))) then Inl MarkupError else r)"

text \<open>The loop over the videos, inside the \<open>with Progress\<close> block.\<close>

fun resolve_all ::
  "(message \<Rightarrow> bool) \<Rightarrow> (nat \<Rightarrow> nat \<Rightarrow> string \<Rightarrow> string \<Rightarrow> ydl_outcome) \<Rightarrow> string \<Rightarrow> rat \<Rightarrow> int \<Rightarrow>
   nat \<Rightarrow> nat \<Rightarrow> video list \<Rightarrow> run_state \<Rightarrow> py_exception + run_state" where
  "resolve_all console ydl quality delay max_retries n idx [] st = Inr st"
| "resolve_all console ydl quality delay max_retries n idx (video # rest) st =
     (case process_video console (ydl idx) quality delay max_retries n idx video st of
        Inl e \<Rightarrow> leave_progress console video (Inl e)
      | Inr st' \<Rightarrow>
          if rest = [] then leave_progress console video (Inr st')
          else resolve_all console ydl quality delay max_retries n (Suc idx) rest st')"

text \<open>
  Step 3 of \<open>process_playlist\<close> and the summary, the same text in both orchestrators. An
  exception of \<open>write_to_file\<close>, or of the print that follows it in the \<open>try\<close> block,
  is caught and reported; one of \<open>generate_output_filename\<close> is not. The summary prints
  the first ten failed titles.
\<close>

definition write_output :: "env \<Rightarrow> string option \<Rightarrow> run_state \<Rightarrow> py_exception + run_state" where
  "write_output e output_path st =
     (if video_data st = [] then Inr (add_error ''No URLs were successfully resolved'' st)
      else
        (case (case output_path of
                 None \<Rightarrow> generate_output_filename (env_now e) (env_title e)
               | Some p \<Rightarrow> if p = [] then generate_output_filename (env_now e) (env_title e)
                           else Inr p) of
           Inl ex \<Rightarrow> Inl ex
         | Inr path \<Rightarrow>
             (case write_to_file (env_io_error e) (video_data st) path (env_title e) of
                Inl ex \<Rightarrow> report_error e ''Failed to write output file: '' ex st
              | Inr url_count \<Rightarrow>
                  (let st' = st\<lparr>res := (res st)\<lparr>output_file := Some path, success := True\<rparr>,
                                trace := trace st @ [WriteFile path]\<rparr> in
                   if env_console e (WroteFile url_count path)
                   then report_error e ''Failed to write output file: '' MarkupError st'
                   else if 0 < failed (res st') \<and>
                           list_ex (\<lambda>t. env_console e (SummaryLine t)) (take 10 (failed_videos st'))
                   then Inl MarkupError
                   else Inr st'))))"

text \<open>
  \<open>process_playlist\<close>. The title is printed inside the \<open>try\<close> block of step 1, after
  \<open>total_videos\<close> is set and before the list is tested for emptiness.
\<close>

definition process_playlist ::
  "env \<Rightarrow> string option \<Rightarrow> string \<Rightarrow> rat \<Rightarrow> int \<Rightarrow> py_exception + run_state" where
  "process_playlist e output_path quality delay max_retries =
     (case env_videos e of
        Inl ex \<Rightarrow> report_error e ''Failed to fetch playlist: '' ex initial_state
      | Inr videos \<Rightarrow>
          (let st = initial_state\<lparr>res := (res initial_state)\<lparr>total_videos := int (length videos)\<rparr>\<rparr> in
           if env_console e (FoundPlaylist (env_title e))
           then report_error e ''Failed to fetch playlist: '' MarkupError st
           else if videos = [] then Inr (add_error ''No videos found in playlist'' st)
           else if env_console e (ResolvingQuality quality) then Inl MarkupError
           else
             (case resolve_all (env_console e) (env_ydl e) quality delay max_retries
                     (length videos) 1 videos st of
                Inl ex \<Rightarrow> Inl ex
              | Inr st' \<Rightarrow> write_output e output_path st')))"

section \<open>modules/orchestrator\_async.py\<close>

text \<open>The dictionary \<open>_resolve_video_url\<close> returns, by its \<open>success\<close> key.\<close>

datatype video_result = Success string string "format_info option" | Failure string

definition resolve_video_url ::
  "(nat \<Rightarrow> string \<Rightarrow> string \<Rightarrow> ydl_outcome) \<Rightarrow> video \<Rightarrow> string \<Rightarrow> int \<Rightarrow>
   py_exception + video_result \<times> event list" where
  "resolve_video_url ydl video quality max_retries =
     (case retry_loop (1 / 2) max_retries ydl (v_id video) quality
             [0..<nat max_retries] ((None, None), []) of
        Inl e \<Rightarrow> Inl e
      | Inr ((direct_url, format_info), tr) \<Rightarrow>
          (case direct_url of
             None \<Rightarrow> Inr (Failure (v_title video), tr)
           | Some u \<Rightarrow>
               if u = [] then Inr (Failure (v_title video), tr)
               else
                 (case add_filesize_str format_info of
                    Inl e \<Rightarrow> Inl e
                  | Inr fi \<Rightarrow> Inr (Success (v_title video) u fi, tr))))"

text \<open>
  \<open>for future in as_completed(future_to_video)\<close>: \<open>future.result()\<close> raises what the
  worker raised, otherwise the result is counted, and the title of a failed video is
  printed. The description of the progress bar is a fixed text here.
\<close>

fun collect ::
  "(message \<Rightarrow> bool) \<Rightarrow> (py_exception + video_result \<times> event list) list \<Rightarrow> run_state \<Rightarrow>
   py_exception + run_state" where
  "collect console [] st = Inr st"
| "collect console (future # rest) st =
     (case future of
        Inl e \<Rightarrow> Inl e
      | Inr (Success t u fi, tr) \<Rightarrow>
          collect console rest
            (append_success \<lparr>vd_title = t, vd_url = u, vd_format_info = fi\<rparr> st)
      | Inr (Failure t, tr) \<Rightarrow>
          if console (FailedVideo t) then Inl MarkupError
          else collect console rest (append_failure t st))"

definition submit_all ::
  "(nat \<Rightarrow> nat \<Rightarrow> string \<Rightarrow> string \<Rightarrow> ydl_outcome) \<Rightarrow> string \<Rightarrow> int \<Rightarrow> video list \<Rightarrow>
   (py_exception + video_result \<times> event list) list" where
  "submit_all y quality max_retries videos =
     map (\<lambda>(idx, video). resolve_video_url (y idx) video quality max_retries)
         (zip [1..<Suc (length videos)] videos)"

fun trace_of :: "(py_exception + video_result \<times> event list) \<Rightarrow> event list" where
  "trace_of (Inl e) = []"
| "trace_of (Inr (vr, tr)) = tr"

text \<open>
  \<open>order\<close> is the order in which the futures complete, as positions in the list of
  submitted videos (from 0); \<open>as_completed\<close> yields every future once, so \<open>order\<close> is a
  permutation of the positions. \<open>ThreadPoolExecutor\<close> raises \<open>ValueError\<close> for
  \<open>max_workers <= 0\<close>.
\<close>

definition process_playlist_async ::
  "env \<Rightarrow> string option \<Rightarrow> string \<Rightarrow> rat \<Rightarrow> int \<Rightarrow> int \<Rightarrow> nat list \<Rightarrow> py_exception + run_state" where
  "process_playlist_async e output_path quality delay max_retries max_workers order =
     (case env_videos e of
        Inl ex \<Rightarrow> report_error e ''Failed to fetch playlist: '' ex initial_state
      | Inr videos \<Rightarrow>
          (let st = initial_state\<lparr>res := (res initial_state)\<lparr>total_videos := int (length videos)\<rparr>\<rparr> in
           if env_console e (FoundPlaylist (env_title e))
           then report_error e ''Failed to fetch playlist: '' MarkupError st
           else if videos = [] then Inr (add_error ''No videos found in playlist'' st)
           else if env_console e (ResolvingQuality quality) then Inl MarkupError
           else if max_workers \<le> 0 then Inl (ValueError ''max_workers must be greater than 0'')
           else
             (let futures = submit_all (env_ydl e) quality max_retries videos in
              case collect (env_console e) (map (\<lambda>i. futures ! i) order) st of
                Inl ex \<Rightarrow> Inl ex
              | Inr st' \<Rightarrow>
                  write_output e output_path (st'\<lparr>trace := concat (map trace_of futures)\<rparr>))))"

section \<open>playlist\_grabber.py\<close>

record args =
  a_playlist_url :: string
  a_output_file :: "string option"
  a_quality :: string
  a_delay :: rat
  a_retries :: int
  a_use_async :: bool
  a_workers :: int

definition startswith :: "string \<Rightarrow> string \<Rightarrow> bool" where
  "startswith s p = (take (length p) s = p)"

text \<open>\<open>p in s\<close> for strings.\<close>

primrec contains :: "string \<Rightarrow> string \<Rightarrow> bool" where
  "contains [] p = (p = [])"
| "contains (c # cs) p = (startswith (c # cs) p \<or> contains cs p)"

text \<open>
  The checks of \<open>main\<close> after argument parsing; \<open>Inl code\<close> is \<open>sys.exit(code)\<close>,
  \<open>Inr\<close> holds the arguments the orchestrator is called with.
\<close>

definition validate_args :: "args \<Rightarrow> int + args" where
  "validate_args a =
     (if \<not> startswith (a_playlist_url a) ''http'' then Inl 1
      else if \<not> contains (a_playlist_url a) ''list='' then Inl 1
      else
        (let a1 = (if a_delay a < 1 / 2 then a\<lparr>a_delay := 1 / 2\<rparr> else a) in
         if a_workers a1 < 1 then Inl 1
         else Inr (if a_workers a1 > 20 then a1\<lparr>a_workers := 20\<rparr> else a1)))"

text \<open>\<open>main\<close>, as the exit code of the process.\<close>

definition main :: "env \<Rightarrow> nat list \<Rightarrow> args \<Rightarrow> int" where
  "main e order a =
     (case validate_args a of
        Inl code \<Rightarrow> code
      | Inr a' \<Rightarrow>
          (case (if a_use_async a'
                 then process_playlist_async e (a_output_file a') (a_quality a') (a_delay a')
                        (a_retries a') (a_workers a') order
                 else process_playlist e (a_output_file a') (a_quality a') (a_delay a')
                        (a_retries a')) of
             Inl ex \<Rightarrow> 1
           | Inr st \<Rightarrow> if success (res st) then 0 else 1))"

section \<open>Notions used to state the properties\<close>

text \<open>
  What the call of \<open>get_direct_url\<close> at attempt \<open>j\<close> returns, and whether the loop takes
  it for a success (\<open>if direct_url:\<close>).
\<close>

definition attempt_result ::
  "(nat \<Rightarrow> string \<Rightarrow> string \<Rightarrow> ydl_outcome) \<Rightarrow> string \<Rightarrow> string \<Rightarrow> nat \<Rightarrow> resolved" where
  "attempt_result y video_id quality j =
     (case get_direct_url (y j) video_id quality of Inl e \<Rightarrow> (None, None) | Inr r \<Rightarrow> r)"

definition attempt_ok ::
  "(nat \<Rightarrow> string \<Rightarrow> string \<Rightarrow> ydl_outcome) \<Rightarrow> string \<Rightarrow> string \<Rightarrow> nat \<Rightarrow> bool" where
  "attempt_ok y video_id quality j = truthy (fst (attempt_result y video_id quality j))"

text \<open>The events of one failed attempt.\<close>

definition step_events :: "rat \<Rightarrow> int \<Rightarrow> string \<Rightarrow> string \<Rightarrow> nat \<Rightarrow> event list" where
  "step_events backoff max_retries video_id quality attempt =
     GetDirectUrl video_id quality #
     (if int attempt < max_retries - 1 then [Sleep backoff] else [])"

text \<open>The number of calls of \<open>get_direct_url\<close> in a trace.\<close>

fun is_call :: "event \<Rightarrow> bool" where
  "is_call (GetDirectUrl video_id quality) = True"
| "is_call (Sleep d) = False"
| "is_call (WriteFile p) = False"

definition n_calls :: "event list \<Rightarrow> nat" where
  "n_calls tr = length (filter is_call tr)"

text \<open>
  The trace of \<open>m\<close> attempts with a pause of \<open>backoff\<close> between two attempts and none
  after the last one.
\<close>

definition attempts_trace :: "event \<Rightarrow> rat \<Rightarrow> nat \<Rightarrow> event list" where
  "attempts_trace call backoff m =
     (if m = 0 then [] else concat (replicate (m - 1) [call, Sleep backoff]) @ [call])"

text \<open>
  \<open>tally st st' k\<close>: from \<open>st\<close> to \<open>st'\<close>, \<open>k\<close> videos were counted, each once, and the
  counters moved with the two lists.
\<close>

definition tally :: "run_state \<Rightarrow> run_state \<Rightarrow> nat \<Rightarrow> bool" where
  "tally st st' k \<longleftrightarrow>
     total_videos (res st') = total_videos (res st) \<and>
     success (res st') = success (res st) \<and>
     output_file (res st') = output_file (res st) \<and>
     errors (res st') = errors (res st) \<and>
     successful (res st') + failed (res st') = successful (res st) + failed (res st) + int k \<and>
     successful (res st') - int (length (video_data st')) =
       successful (res st) - int (length (video_data st)) \<and>
     failed (res st') - int (length (failed_videos st')) =
       failed (res st) - int (length (failed_videos st))"

text \<open>The entries and the titles that a list of finished workers contributes.\<close>

fun is_success :: "(py_exception + video_result \<times> event list) \<Rightarrow> bool" where
  "is_success (Inr (Success t u fi, tr)) = True"
| "is_success (Inr (Failure t, tr)) = False"
| "is_success (Inl e) = False"

fun is_failure :: "(py_exception + video_result \<times> event list) \<Rightarrow> bool" where
  "is_failure (Inr (Failure t, tr)) = True"
| "is_failure (Inr (Success t u fi, tr)) = False"
| "is_failure (Inl e) = False"

fun entry_of :: "(py_exception + video_result \<times> event list) \<Rightarrow> video_entry" where
  "entry_of (Inr (Success t u fi, tr)) = \<lparr>vd_title = t, vd_url = u, vd_format_info = fi\<rparr>"
| "entry_of (Inr (Failure t, tr)) = \<lparr>vd_title = t, vd_url = [], vd_format_info = None\<rparr>"
| "entry_of (Inl e) = \<lparr>vd_title = [], vd_url = [], vd_format_info = None\<rparr>"

definition successes :: "(py_exception + video_result \<times> event list) list \<Rightarrow> video_entry list" where
  "successes fs = map entry_of (filter is_success fs)"

definition failures :: "(py_exception + video_result \<times> event list) list \<Rightarrow> string list" where
  "failures fs = map (\<lambda>f. vd_title (entry_of f)) (filter is_failure fs)"

definition tallied ::
  "(py_exception + video_result \<times> event list) list \<Rightarrow> run_state \<Rightarrow> run_state" where
  "tallied fs st =
     st\<lparr>video_data := video_data st @ successes fs,
        failed_videos := failed_videos st @ failures fs,
        res := (res st)\<lparr>successful := successful (res st) + int (length (successes fs)),
                        failed := failed (res st) + int (length (failures fs))\<rparr>\<rparr>"

text \<open>
  With a service whose answer depends on the request only, whether the retry loop
  resolves a video id.
\<close>

definition id_resolves :: "(string \<Rightarrow> string \<Rightarrow> ydl_outcome) \<Rightarrow> string \<Rightarrow> int \<Rightarrow> string \<Rightarrow> bool" where
  "id_resolves g quality max_retries video_id =
     (0 < max_retries \<and> attempt_ok (\<lambda>attempt. g) video_id quality 0)"

section \<open>Sample inputs\<close>

definition sample_info :: "string \<Rightarrow> info" where
  "sample_info u =
     \<lparr> i_url = Value u, i_requested_formats = Absent, i_width = Value 1920,
       i_height = Value 1080, i_filesize = Value 1280, i_filesize_approx = Absent,
       i_ext = Value ''mp4'', i_format_note = Value ''1080p'', i_vcodec = Value ''avc1'',
       i_acodec = Value ''mp4a'' \<rparr>"

definition video_a :: video where
  "video_a = \<lparr>v_id = ''a'', v_title = ''A''\<rparr>"

definition video_b :: video where
  "video_b = \<lparr>v_id = ''b'', v_title = ''B''\<rparr>"

text \<open>A service that resolves video \<open>a\<close> and fails on every other video.\<close>

definition sample_service :: "string \<Rightarrow> string \<Rightarrow> ydl_outcome" where
  "sample_service video_url fmt =
     (if video_url = video_url_of ''a'' then Returns (Some (sample_info ''https://cdn/a''))
      else Raises (OtherError ''Video unavailable''))"

text \<open>A service whose answer carries an empty URL.\<close>

definition blank_service :: "string \<Rightarrow> string \<Rightarrow> ydl_outcome" where
  "blank_service video_url fmt = Returns (Some (sample_info []))"

text \<open>A service that fails at the first attempt and resolves at every later one.\<close>

definition flaky_service :: "nat \<Rightarrow> string \<Rightarrow> string \<Rightarrow> ydl_outcome" where
  "flaky_service attempt video_url fmt =
     (if attempt = 0 then Returns None else Returns (Some (sample_info ''https://cdn/x'')))"

text \<open>
  A console that raises on every text whose variable part holds the closing tag
  \<open>[/x]\<close>, which none of the texts above opens.
\<close>

fun message_text :: "message \<Rightarrow> string" where
  "message_text (FoundPlaylist None) = ''None''"
| "message_text (FoundPlaylist (Some t)) = t"
| "message_text (ResolvingQuality q) = q"
| "message_text (Processing t) = t"
| "message_text (FailedVideo t) = t"
| "message_text (ErrorMessage m) = m"
| "message_text (WroteFile n p) = p"
| "message_text (SummaryLine t) = t"

definition sample_console :: "message \<Rightarrow> bool" where
  "sample_console m = contains (message_text m) ''[/x]''"

definition sample_env :: env where
  "sample_env =
     \<lparr> env_title = Some ''My List'', env_videos = Inr [video_a, video_b],
       env_ydl = (\<lambda>idx attempt. sample_service), env_io_error = None,
       env_now = ''20240101_120000'', env_console = sample_console \<rparr>"

text \<open>An empty playlist whose title holds the tag.\<close>

definition empty_tagged_env :: env where
  "empty_tagged_env = sample_env\<lparr>env_title := Some ''[/x]'', env_videos := Inr []\<rparr>"

text \<open>A playlist of one video that resolves and whose title holds the tag.\<close>

definition tagged_video_env :: env where
  "tagged_video_env = sample_env\<lparr>env_videos := Inr [\<lparr>v_id = ''a'', v_title = ''[/x]''\<rparr>]\<rparr>"

definition sample_args :: args where
  "sample_args =
     \<lparr> a_playlist_url = ''https://www.youtube.com/playlist?list=PL1'', a_output_file = None,
       a_quality = ''best'', a_delay = 3 / 2, a_retries = 3, a_use_async = True,
       a_workers = 50 \<rparr>"

section \<open>Properties\<close>

subsection \<open>The resolver\<close>

lemma get_direct_url_Inr:
  "get_direct_url (y j) video_id quality = Inr (attempt_result y video_id quality j)"
  by (simp add: attempt_result_def get_direct_url_def split: sum.splits)

subsection \<open>Counting the videos\<close>

lemma tally_refl: "tally st st 0"
  by (simp add: tally_def)

lemma tally_trans: "tally a b j \<Longrightarrow> tally b c k \<Longrightarrow> tally a c (j + k)"
  by (simp add: tally_def)

lemma tally_success: "tally st (append_success v st) (Suc 0)"
  by (simp add: tally_def append_success_def)

lemma tally_failure: "tally st (append_failure t st) (Suc 0)"
  by (simp add: tally_def append_failure_def)

lemma tally_trace: "tally st st' k \<Longrightarrow> tally st (st'\<lparr>trace := t\<rparr>) k"
  by (simp add: tally_def)

lemma process_video_tally:
  "process_video c y q d mr n idx v st = Inr st' \<Longrightarrow> tally st st' (Suc 0)"
  by (auto simp: process_video_def failed_video_def Let_def
           intro!: tally_trace tally_success tally_failure
           split: sum.splits prod.splits option.splits if_splits)

lemma resolve_all_tally:
  "resolve_all c y q d mr n idx vs st = Inr st' \<Longrightarrow> tally st st' (length vs)"
proof (induction vs arbitrary: idx st)
  case Nil
  then show ?case by (simp add: tally_refl)
next
  case (Cons v vs)
  from Cons.prems obtain st1 where
    1: "process_video c (y idx) q d mr n idx v st = Inr st1" and
    2: "resolve_all c y q d mr n (Suc idx) vs st1 = Inr st'"
    by (auto simp: leave_progress_def split: sum.splits if_splits)
  from tally_trans[OF process_video_tally[OF 1] Cons.IH[OF 2]] show ?case by simp
qed

lemma collect_tally:
  "collect c fs st = Inr st' \<Longrightarrow> tally st st' (length fs)"
proof (induction fs arbitrary: st)
  case Nil
  then show ?case by (simp add: tally_refl)
next
  case (Cons f fs)
  show ?case
  proof (cases f)
    case (Inl e)
    with Cons.prems show ?thesis by simp
  next
    case (Inr p)
    obtain vr tr where p: "p = (vr, tr)" by (cases p)
    show ?thesis
    proof (cases vr)
      case (Success t u fi)
      with Cons.prems Inr p
      have "collect c fs (append_success \<lparr>vd_title = t, vd_url = u, vd_format_info = fi\<rparr> st) = Inr st'"
        by simp
      from tally_trans[OF tally_success Cons.IH[OF this]] show ?thesis by simp
    next
      case (Failure t)
      with Cons.prems Inr p have "collect c fs (append_failure t st) = Inr st'"
        by (simp split: if_splits)
      from tally_trans[OF tally_failure Cons.IH[OF this]] show ?thesis by simp
    qed
  qed
qed

lemma write_output_keeps:
  "write_output e out st = Inr st' \<Longrightarrow>
     total_videos (res st') = total_videos (res st) \<and>
     successful (res st') = successful (res st) \<and>
     failed (res st') = failed (res st) \<and>
     video_data st' = video_data st \<and> failed_videos st' = failed_videos st"
  by (auto simp: write_output_def report_error_def add_error_def Let_def
           split: sum.splits if_splits option.splits)

lemma tally_initial:
  "tally (initial_state\<lparr>res := (res initial_state)\<lparr>total_videos := n\<rparr>\<rparr>) st k \<Longrightarrow>
     total_videos (res st) = n \<and> successful (res st) + failed (res st) = int k \<and>
     successful (res st) = int (length (video_data st)) \<and>
     failed (res st) = int (length (failed_videos st)) \<and>
     \<not> success (res st) \<and> errors (res st) = [] \<and> output_file (res st) = None"
  by (simp add: tally_def initial_state_def)

lemma perm_length: "mset order = mset [0..<n] \<Longrightarrow> length order = n"
  using mset_eq_length by fastforce

text \<open>What the two orchestrators do on a playlist that is not empty.\<close>

lemma process_playlist_steps:
  assumes "env_videos e = Inr videos" and "videos \<noteq> []"
    and "process_playlist e out q d mr = Inr r"
  obtains st1 where
    "tally (initial_state\<lparr>res := (res initial_state)\<lparr>total_videos := int (length videos)\<rparr>\<rparr>)
       st1 (length videos)"
    and "write_output e out st1 = Inr r"
proof -
  let ?st = "initial_state\<lparr>res := (res initial_state)\<lparr>total_videos := int (length videos)\<rparr>\<rparr>"
  from assms obtain st1 where
    1: "resolve_all (env_console e) (env_ydl e) q d mr (length videos) 1 videos ?st = Inr st1" and
    2: "write_output e out st1 = Inr r"
    by (auto simp: process_playlist_def report_error_def Let_def split: sum.splits if_splits)
  from resolve_all_tally[OF 1] 2 that show ?thesis by blast
qed

lemma process_playlist_async_steps:
  assumes "env_videos e = Inr videos" and "videos \<noteq> []"
    and "mset order = mset [0..<length videos]"
    and "process_playlist_async e out q d mr mw order = Inr r"
  obtains st1 where
    "tally (initial_state\<lparr>res := (res initial_state)\<lparr>total_videos := int (length videos)\<rparr>\<rparr>)
       st1 (length videos)"
    and "write_output e out st1 = Inr r"
proof -
  let ?st = "initial_state\<lparr>res := (res initial_state)\<lparr>total_videos := int (length videos)\<rparr>\<rparr>"
  let ?fs = "submit_all (env_ydl e) q mr videos"
  from assms obtain st1 where
    1: "collect (env_console e) (map (\<lambda>i. ?fs ! i) order) ?st = Inr st1" and
    2: "write_output e out (st1\<lparr>trace := concat (map trace_of ?fs)\<rparr>) = Inr r"
    by (auto simp: process_playlist_async_def report_error_def Let_def
             split: sum.splits if_splits)
  from collect_tally[OF 1] perm_length[OF assms(3)]
  have "tally ?st (st1\<lparr>trace := concat (map trace_of ?fs)\<rparr>) (length videos)"
    by (simp add: tally_trace)
  with 2 that show ?thesis by blast
qed




subsection \<open>The empty playlist\<close>

lemma process_playlist_async_total:
  assumes "env_videos e = Inr videos" and "videos \<noteq> []"
    and "process_playlist_async e out q d mr mw order = Inr r"
  shows "total_videos (res r) = int (length videos)"
proof -
  let ?st = "initial_state\<lparr>res := (res initial_state)\<lparr>total_videos := int (length videos)\<rparr>\<rparr>"
  let ?fs = "submit_all (env_ydl e) q mr videos"
  from assms obtain st1 where
    1: "collect (env_console e) (map (\<lambda>i. ?fs ! i) order) ?st = Inr st1" and
    2: "write_output e out (st1\<lparr>trace := concat (map trace_of ?fs)\<rparr>) = Inr r"
    by (auto simp: process_playlist_async_def report_error_def Let_def
             split: sum.splits if_splits)
  from collect_tally[OF 1] have "total_videos (res st1) = int (length videos)"
    by (simp add: tally_def initial_state_def)
  with write_output_keeps[OF 2] show ?thesis by simp
qed

lemma process_playlist_total:
  assumes "env_videos e = Inr videos" and "videos \<noteq> []"
    and "process_playlist e out q d mr = Inr r"
  shows "total_videos (res r) = int (length videos)"
proof -
  from process_playlist_steps[OF assms] obtain st1 where
    "tally (initial_state\<lparr>res := (res initial_state)\<lparr>total_videos := int (length videos)\<rparr>\<rparr>)
       st1 (length videos)" and "write_output e out st1 = Inr r" by blast
  with tally_initial write_output_keeps show ?thesis by metis
qed

text \<open>
  When the fetched list of videos is empty and its title prints, both orchestrators
  return at once the report with \<open>success = False\<close> and the single error "No videos
  found in playlist": the trace is empty, so \<open>get_direct_url\<close> is never called (and
  nothing sleeps or is written). No run on another outcome of the fetch returns this
  report.
\<close>

lemma empty_playlist_report:
  assumes "env_videos e = Inr []" and "\<not> env_console e (FoundPlaylist (env_title e))"
  shows "process_playlist e out q d mr =
           Inr \<lparr>res = \<lparr>success = False, output_file = None, total_videos = 0, successful = 0,
                       failed = 0, errors = [''No videos found in playlist'']\<rparr>,
                video_data = [], failed_videos = [], trace = []\<rparr> \<and>
         process_playlist_async e out q d mr mw order =
           Inr \<lparr>res = \<lparr>success = False, output_file = None, total_videos = 0, successful = 0,
                       failed = 0, errors = [''No videos found in playlist'']\<rparr>,
                video_data = [], failed_videos = [], trace = []\<rparr> \<and>
         (env_videos e' \<noteq> Inr [] \<longrightarrow>
            process_playlist e' out' q' d' mr' \<noteq> process_playlist e out q d mr \<and>
            process_playlist_async e' out' q' d' mr' mw' order' \<noteq>
              process_playlist_async e out q d mr mw order)"
proof -
  let ?X = "\<lparr>res = \<lparr>success = False, output_file = None, total_videos = 0, successful = 0,
                       failed = 0, errors = [''No videos found in playlist'']\<rparr>,
                video_data = [], failed_videos = [], trace = []\<rparr>"
  have s: "process_playlist e out q d mr = Inr ?X"
    using assms by (simp add: process_playlist_def add_error_def initial_state_def)
  have a: "process_playlist_async e out q d mr mw order = Inr ?X"
    using assms by (simp add: process_playlist_async_def add_error_def initial_state_def)
  have d: "process_playlist e' out' q' d' mr' \<noteq> Inr ?X \<and>
           process_playlist_async e' out' q' d' mr' mw' order' \<noteq> Inr ?X"
    if ne: "env_videos e' \<noteq> Inr []"
  proof (cases "env_videos e'")
    case (Inl ex)
    then show ?thesis
      by (simp add: process_playlist_def process_playlist_async_def report_error_def
          add_error_def initial_state_def Let_def)
  next
    case (Inr vs)
    with ne have vs: "vs \<noteq> []" by simp
    have "process_playlist e' out' q' d' mr' \<noteq> Inr ?X"
    proof
      assume "process_playlist e' out' q' d' mr' = Inr ?X"
      from process_playlist_total[OF Inr vs this] vs show False by simp
    qed
    moreover have "process_playlist_async e' out' q' d' mr' mw' order' \<noteq> Inr ?X"
    proof
      assume "process_playlist_async e' out' q' d' mr' mw' order' = Inr ?X"
      from process_playlist_async_total[OF Inr vs this] vs show False by simp
    qed
    ultimately show ?thesis by simp
  qed
  from s a d show ?thesis by simp
qed

text \<open>
  C5 does not hold of the code: the orchestrators print the title of the playlist, as
  markup, before they test the list for emptiness. On an empty playlist whose title is
  \<open>[/x]\<close> the print raises, the print of the error message in the \<open>except\<close> branch
  raises again, and the run ends with a \<open>MarkupError\<close> instead of the report "No videos
  found in playlist".
\<close>

theorem empty_playlist_title_markup:
  "process_playlist empty_tagged_env None ''best'' (3 / 2) 3 = Inl MarkupError \<and>
   process_playlist_async empty_tagged_env None ''best'' (3 / 2) 3 10 [] = Inl MarkupError"
  by code_simp

subsection \<open>The retry loop\<close>

lemma retry_loop_all_fail:
  "\<forall>j\<in>set as. \<not> attempt_ok y vid q j \<Longrightarrow>
   retry_loop b mr y vid q as (r, tr) =
     Inr (if as = [] then r else attempt_result y vid q (last as),
          tr @ concat (map (step_events b mr vid q) as))"
proof (induction as arbitrary: r tr)
  case Nil
  then show ?case by simp
next
  case (Cons a as)
  obtain u f where uf: "attempt_result y vid q a = (u, f)" by (cases "attempt_result y vid q a")
  with Cons.prems have nt: "\<not> truthy u" by (simp add: attempt_ok_def)
  from Cons.prems have "\<forall>j\<in>set as. \<not> attempt_ok y vid q j" by simp
  from Cons.IH[OF this, of "(u, f)"] nt show ?case
    by (simp add: get_direct_url_Inr uf step_events_def)
qed

lemma retry_loop_first_success:
  "\<forall>i\<in>set pre. \<not> attempt_ok y vid q i \<Longrightarrow> attempt_ok y vid q j \<Longrightarrow>
   retry_loop b mr y vid q (pre @ j # post) (r, tr) =
     Inr (attempt_result y vid q j,
          tr @ concat (map (step_events b mr vid q) pre) @ [GetDirectUrl vid q])"
proof (induction pre arbitrary: r tr)
  case Nil
  obtain u f where uf: "attempt_result y vid q j = (u, f)" by (cases "attempt_result y vid q j")
  with Nil show ?case by (simp add: get_direct_url_Inr attempt_ok_def)
next
  case (Cons a pre)
  obtain u f where uf: "attempt_result y vid q a = (u, f)" by (cases "attempt_result y vid q a")
  with Cons.prems have nt: "\<not> truthy u" by (simp add: attempt_ok_def)
  from Cons.prems have "\<forall>i\<in>set pre. \<not> attempt_ok y vid q i" by simp
  from Cons.IH[OF this Cons.prems(2), of "(u, f)"] nt show ?case
    by (simp add: get_direct_url_Inr uf step_events_def)
qed

lemma n_calls_append: "n_calls (xs @ ys) = n_calls xs + n_calls ys"
  by (simp add: n_calls_def)

text \<open>The outcome of the loop over \<open>range(max_retries)\<close>, in its two cases.\<close>

lemma retry_loop_range:
  obtains (exhausted) "\<forall>j<nat mr. \<not> attempt_ok y vid q j"
      and "retry_loop b mr y vid q [0..<nat mr] (r, tr) =
             Inr (if nat mr = 0 then r else attempt_result y vid q (nat mr - 1),
                  tr @ concat (map (step_events b mr vid q) [0..<nat mr]))"
    | (resolved) k where "k < nat mr" and "attempt_ok y vid q k"
      and "\<forall>j<k. \<not> attempt_ok y vid q j"
      and "retry_loop b mr y vid q [0..<nat mr] (r, tr) =
             Inr (attempt_result y vid q k,
                  tr @ concat (map (step_events b mr vid q) [0..<k]) @ [GetDirectUrl vid q])"
proof (cases "\<exists>k<nat mr. attempt_ok y vid q k")
  case False
  then have all: "\<forall>j\<in>set [0..<nat mr]. \<not> attempt_ok y vid q j" by simp
  from retry_loop_all_fail[OF all, of b mr r tr] False exhausted show ?thesis
    by (cases "nat mr") (simp_all del: upt_Suc)
next
  case True
  define k where "k = (LEAST k. k < nat mr \<and> attempt_ok y vid q k)"
  from True have k: "k < nat mr \<and> attempt_ok y vid q k"
    unfolding k_def by (rule LeastI_ex)
  have least: "\<forall>j<k. \<not> attempt_ok y vid q j"
  proof (intro allI impI)
    fix j assume "j < k"
    with not_less_Least[of j "\<lambda>k. k < nat mr \<and> attempt_ok y vid q k"] k
    show "\<not> attempt_ok y vid q j" unfolding k_def by auto
  qed
  from k have split: "[0..<nat mr] = [0..<k] @ k # [Suc k..<nat mr]"
    by (metis less_imp_add_positive upt_add_eq_append upt_conv_Cons
        less_eq_nat.simps(1) upt_rec)
  from least have pre: "\<forall>i\<in>set [0..<k]. \<not> attempt_ok y vid q i" by simp
  from retry_loop_first_success[OF pre, of k b mr "[Suc k..<nat mr]" r tr] k split
  have "retry_loop b mr y vid q [0..<nat mr] (r, tr) =
             Inr (attempt_result y vid q k,
                  tr @ concat (map (step_events b mr vid q) [0..<k]) @ [GetDirectUrl vid q])"
    by simp
  with k least resolved show ?thesis by blast
qed


lemma retry_loop_Inr: "\<exists>st'. retry_loop b mr y vid q as st = Inr st'"
proof (induction as arbitrary: st)
  case Nil
  then show ?case by simp
next
  case (Cons a as)
  obtain r tr where st: "st = (r, tr)" by (cases st)
  obtain u f where uf: "attempt_result y vid q a = (u, f)" by (cases "attempt_result y vid q a")
  from Cons.IH show ?case
    by (simp add: st get_direct_url_Inr uf)
qed

lemma concat_replicate_commute: "concat (replicate k x) @ x = x @ concat (replicate k x)"
  by (induction k) simp_all

lemma steps_with_backoff:
  "k < nat mr \<Longrightarrow>
   concat (map (step_events b mr vid q) [0..<k]) =
     concat (replicate k [GetDirectUrl vid q, Sleep b])"
proof (induction k)
  case 0
  then show ?case by simp
next
  case (Suc k)
  then have "int k < mr - 1" by linarith
  with Suc show ?case
    using concat_replicate_commute[of k "[GetDirectUrl vid q, Sleep b]"]
    by (simp add: step_events_def)
qed

lemma steps_exhausted:
  "concat (map (step_events b mr vid q) [0..<nat mr]) =
     attempts_trace (GetDirectUrl vid q) b (nat mr)"
proof (cases "nat mr")
  case 0
  then show ?thesis by (simp add: attempts_trace_def)
next
  case (Suc k)
  then have k: "k < nat mr" and last: "\<not> int k < mr - 1" by linarith+
  from steps_with_backoff[OF k, of b vid q] last Suc show ?thesis
    by (simp add: attempts_trace_def step_events_def)
qed

lemma steps_resolved:
  "k < nat mr \<Longrightarrow>
   concat (map (step_events b mr vid q) [0..<k]) @ [GetDirectUrl vid q] =
     attempts_trace (GetDirectUrl vid q) b (Suc k)"
  by (simp add: steps_with_backoff attempts_trace_def)

lemma n_calls_attempts_trace: "n_calls (attempts_trace (GetDirectUrl vid q) b m) = m"
proof -
  have "length (filter is_call (concat (replicate k [GetDirectUrl vid q, Sleep b]))) = k" for k
    by (induction k) simp_all
  then show ?thesis
    by (cases m) (simp_all add: attempts_trace_def n_calls_def)
qed

text \<open>
  The retry loop of one item: it returns, its trace is that of \<open>m\<close> attempts, and
  \<open>m\<close> is the position after the first success, or \<open>max_retries\<close> when none succeeds.
\<close>

lemma retry_loop_summary:
  obtains u f m where
    "retry_loop b mr y vid q [0..<nat mr] ((None, None), tr) =
       Inr ((u, f), tr @ attempts_trace (GetDirectUrl vid q) b m)"
    and "m \<le> nat mr"
    and "\<not> truthy u \<longrightarrow> m = nat mr \<and> (\<forall>j<nat mr. \<not> attempt_ok y vid q j)"
    and "\<forall>k<nat mr. attempt_ok y vid q k \<and> (\<forall>j<k. \<not> attempt_ok y vid q j) \<longrightarrow>
           m = Suc k \<and> (u, f) = attempt_result y vid q k"
proof (cases rule: retry_loop_range[of mr y vid q b "(None, None)" tr])
  case exhausted
  let ?r = "if nat mr = 0 then (None, None) else attempt_result y vid q (nat mr - 1)"
  have nt: "\<not> truthy (fst ?r)"
  proof (cases "nat mr = 0")
    case True
    then show ?thesis by (simp add: truthy_def)
  next
    case False
    with exhausted(1) have "\<not> attempt_ok y vid q (nat mr - 1)" by simp
    with False show ?thesis by (simp add: attempt_ok_def)
  qed
  from exhausted(2) have
    "retry_loop b mr y vid q [0..<nat mr] ((None, None), tr) =
       Inr ((fst ?r, snd ?r), tr @ attempts_trace (GetDirectUrl vid q) b (nat mr))"
    by (simp add: steps_exhausted)
  from that[OF this] nt exhausted(1) show ?thesis by blast
next
  case (resolved k)
  let ?r = "attempt_result y vid q k"
  from resolved(4) resolved(1) have
    eq: "retry_loop b mr y vid q [0..<nat mr] ((None, None), tr) =
       Inr ((fst ?r, snd ?r), tr @ attempts_trace (GetDirectUrl vid q) b (Suc k))"
    by (simp add: steps_resolved)
  have t: "truthy (fst ?r)" using resolved(2) by (simp add: attempt_ok_def)
  have uniq: "\<forall>k'<nat mr. attempt_ok y vid q k' \<and> (\<forall>j<k'. \<not> attempt_ok y vid q j) \<longrightarrow>
           Suc k = Suc k' \<and> (fst ?r, snd ?r) = attempt_result y vid q k'"
  proof (intro allI impI)
    fix k' assume "k' < nat mr" and h: "attempt_ok y vid q k' \<and> (\<forall>j<k'. \<not> attempt_ok y vid q j)"
    with resolved(2,3) have "k' = k" by (meson linorder_neqE_nat)
    then show "Suc k = Suc k' \<and> (fst ?r, snd ?r) = attempt_result y vid q k'" by simp
  qed
  from resolved(1) have "Suc k \<le> nat mr" by simp
  from that[OF eq this _ uniq] t show ?thesis by blast
qed

lemma resolve_video_url_unfold:
  "retry_loop (1 / 2) mr y (v_id v) q [0..<nat mr] ((None, None), []) = Inr ((u, f), tr) \<Longrightarrow>
   resolve_video_url y v q mr =
     (if truthy u then
        (case add_filesize_str f of
           Inl e \<Rightarrow> Inl e
         | Inr fi \<Rightarrow> Inr (Success (v_title v) (the u) fi, tr))
      else Inr (Failure (v_title v), tr))"
  by (cases u) (auto simp: resolve_video_url_def truthy_def split: sum.splits)

lemma process_video_unfold:
  "retry_loop (d * (1 / 2)) mr y (v_id v) q [0..<nat mr] ((None, None), trace st) =
     Inr ((u, f), tr) \<Longrightarrow>
   process_video c y q d mr n idx v st =
     (if truthy u then
        (case add_filesize_str f of
           Inl e \<Rightarrow> Inl e
         | Inr fi \<Rightarrow>
             Inr ((append_success \<lparr>vd_title = v_title v, vd_url = the u, vd_format_info = fi\<rparr> st)
                  \<lparr>trace := tr @ (if idx < n then [Sleep d] else [])\<rparr>))
      else if c (FailedVideo (v_title v)) then Inl MarkupError
      else Inr ((append_failure (v_title v) st)
                \<lparr>trace := tr @ (if idx < n then [Sleep d] else [])\<rparr>))"
  by (cases u)
     (auto simp: process_video_def failed_video_def truthy_def Let_def split: sum.splits)


text \<open>
  C6. \<open>get_direct_url\<close> never raises: whatever happens inside its \<open>try\<close> block it
  returns, and it returns \<open>(None, None)\<close> when the block raised. So the retry loop
  never raises either, and an item ends as a failure only when every one of the
  \<open>max_retries\<close> attempts was made and failed.
\<close>

theorem get_direct_url_never_raises:
  "(\<exists>r. get_direct_url ydl vid q = Inr r) \<and>
   (get_direct_url_try ydl vid q = Inl ex \<longrightarrow> get_direct_url ydl vid q = Inr (None, None)) \<and>
   (\<exists>st'. retry_loop b mr y vid q as st = Inr st') \<and>
   (resolve_video_url y v q mr = Inr (Failure t, tr) \<longrightarrow>
      n_calls tr = nat mr \<and> (\<forall>j<nat mr. \<not> attempt_ok y (v_id v) q j)) \<and>
   (process_video c y q d mr n idx v st1 = Inr st2 \<longrightarrow> failed (res st2) \<noteq> failed (res st1) \<longrightarrow>
      n_calls (trace st2) = n_calls (trace st1) + nat mr \<and>
      (\<forall>j<nat mr. \<not> attempt_ok y (v_id v) q j))"
proof (intro conjI impI)
  show "\<exists>r. get_direct_url ydl vid q = Inr r"
    by (simp add: get_direct_url_def split: sum.splits)
  show "get_direct_url ydl vid q = Inr (None, None)" if "get_direct_url_try ydl vid q = Inl ex"
    using that by (simp add: get_direct_url_def)
  show "\<exists>st'. retry_loop b mr y vid q as st = Inr st'"
    by (rule retry_loop_Inr)
next
  assume run: "resolve_video_url y v q mr = Inr (Failure t, tr)"
  obtain u f m where
    loop: "retry_loop (1 / 2) mr y (v_id v) q [0..<nat mr] ((None, None), []) =
       Inr ((u, f), [] @ attempts_trace (GetDirectUrl (v_id v) q) (1 / 2) m)"
    and fail: "\<not> truthy u \<longrightarrow> m = nat mr \<and> (\<forall>j<nat mr. \<not> attempt_ok y (v_id v) q j)"
    by (rule retry_loop_summary[of "1 / 2" mr y "v_id v" q "[]"]) blast
  from resolve_video_url_unfold[OF loop] run
  have "\<not> truthy u" and "tr = attempts_trace (GetDirectUrl (v_id v) q) (1 / 2) m"
    by (auto split: if_splits sum.splits)
  with fail show "n_calls tr = nat mr" and "\<forall>j<nat mr. \<not> attempt_ok y (v_id v) q j"
    by (simp_all add: n_calls_attempts_trace)
next
  assume run: "process_video c y q d mr n idx v st1 = Inr st2"
    and changed: "failed (res st2) \<noteq> failed (res st1)"
  obtain u f m where
    loop: "retry_loop (d * (1 / 2)) mr y (v_id v) q [0..<nat mr] ((None, None), trace st1) =
       Inr ((u, f), trace st1 @ attempts_trace (GetDirectUrl (v_id v) q) (d * (1 / 2)) m)"
    and fail: "\<not> truthy u \<longrightarrow> m = nat mr \<and> (\<forall>j<nat mr. \<not> attempt_ok y (v_id v) q j)"
    by (rule retry_loop_summary[of "d * (1 / 2)" mr y "v_id v" q "trace st1"]) blast
  from process_video_unfold[OF loop, where c = c and n = n and idx = idx] run changed
  have "\<not> truthy u"
    and "trace st2 = trace st1 @ attempts_trace (GetDirectUrl (v_id v) q) (d * (1 / 2)) m @
           (if idx < n then [Sleep d] else [])"
    by (auto simp: append_success_def split: if_splits sum.splits)
  with fail show "n_calls (trace st2) = n_calls (trace st1) + nat mr"
    and "\<forall>j<nat mr. \<not> attempt_ok y (v_id v) q j"
    by (simp_all add: n_calls_append n_calls_attempts_trace, simp add: n_calls_def)
qed

theorem get_direct_url_never_raises_witness:
  "get_direct_url_try sample_service ''b'' ''best'' = Inl (OtherError ''Video unavailable'') \<and>
   get_direct_url sample_service ''b'' ''best'' = Inr (None, None) \<and>
   resolve_video_url (\<lambda>attempt. sample_service) video_b ''best'' 3 =
     Inr (Failure ''B'',
          [GetDirectUrl ''b'' ''best'', Sleep (1 / 2), GetDirectUrl ''b'' ''best'', Sleep (1 / 2),
           GetDirectUrl ''b'' ''best'']) \<and>
   n_calls [GetDirectUrl ''b'' ''best'', Sleep (1 / 2), GetDirectUrl ''b'' ''best'', Sleep (1 / 2),
            GetDirectUrl ''b'' ''best''] = nat 3 \<and>
   \<not> isl (process_video sample_console (\<lambda>attempt. sample_service) ''best'' (3 / 2) 3 2 2 video_b initial_state) \<and>
   failed (res (projr (process_video sample_console (\<lambda>attempt. sample_service) ''best'' (3 / 2) 3 2 2 video_b
                         initial_state))) \<noteq> failed (res initial_state) \<and>
   n_calls (trace (projr (process_video sample_console (\<lambda>attempt. sample_service) ''best'' (3 / 2) 3 2 2 video_b
                            initial_state))) = n_calls (trace initial_state) + nat 3"
proof -
  have h1: "get_direct_url_try sample_service ''b'' ''best'' = Inl (OtherError ''Video unavailable'')"
    by code_simp
  have h2: "resolve_video_url (\<lambda>attempt. sample_service) video_b ''best'' 3 =
     Inr (Failure ''B'',
          [GetDirectUrl ''b'' ''best'', Sleep (1 / 2), GetDirectUrl ''b'' ''best'', Sleep (1 / 2),
           GetDirectUrl ''b'' ''best''])"
    by code_simp
  have h3: "\<not> isl (process_video sample_console (\<lambda>attempt. sample_service) ''best'' (3 / 2) 3 2 2 video_b initial_state)"
    by code_simp
  have h4: "failed (res (projr (process_video sample_console (\<lambda>attempt. sample_service) ''best'' (3 / 2) 3 2 2 video_b
                         initial_state))) \<noteq> failed (res initial_state)"
    by code_simp
  from h3 have h3': "process_video sample_console (\<lambda>attempt. sample_service) ''best'' (3 / 2) 3 2 2 video_b initial_state =
      Inr (projr (process_video sample_console (\<lambda>attempt. sample_service) ''best'' (3 / 2) 3 2 2 video_b initial_state))"
    by simp
  note t = get_direct_url_never_raises[where ydl = sample_service and vid = "''b''"
      and q = "''best''" and ex = "OtherError ''Video unavailable''" and b = "1 / 2" and mr = 3
      and y = "\<lambda>attempt. sample_service" and as = "[]" and st = "((None, None), [])"
      and v = video_b and t = "''B''"
      and tr = "[GetDirectUrl ''b'' ''best'', Sleep (1 / 2), GetDirectUrl ''b'' ''best'',
                 Sleep (1 / 2), GetDirectUrl ''b'' ''best'']"
      and c = sample_console and d = "3 / 2" and n = 2 and idx = 2 and ?st1.0 = initial_state
      and ?st2.0 = "projr (process_video sample_console (\<lambda>attempt. sample_service) ''best''
                            (3 / 2) 3 2 2 video_b initial_state)"]
  from t h1 have c1: "get_direct_url sample_service ''b'' ''best'' = Inr (None, None)" by blast
  from t h2 have c2: "n_calls [GetDirectUrl ''b'' ''best'', Sleep (1 / 2), GetDirectUrl ''b'' ''best'', Sleep (1 / 2),
            GetDirectUrl ''b'' ''best''] = nat 3" by blast
  from t h3' h4 have c3: "n_calls (trace (projr (process_video sample_console (\<lambda>attempt. sample_service) ''best'' (3 / 2) 3 2 2 video_b
                            initial_state))) = n_calls (trace initial_state) + nat 3" by blast
  from h1 h2 h3 h4 c1 c2 c3 show ?thesis by blast
qed


subsection \<open>Retries and backoff\<close>

text \<open>
  C2, as stated, fails: the loop tests \<open>if direct_url:\<close>, so a call that returns the
  empty string, which is not \<open>None\<close>, is followed by another call.
\<close>

theorem retry_after_empty_url:
  "get_direct_url blank_service ''a'' ''best'' = Inr (Some [], Some (build_format_info (sample_info []))) \<and>
   resolve_video_url (\<lambda>attempt. blank_service) video_a ''best'' 2 =
     Inr (Failure ''A'', [GetDirectUrl ''a'' ''best'', Sleep (1 / 2), GetDirectUrl ''a'' ''best''])"
  by code_simp

text \<open>
  C2, amended. For \<open>max_retries >= 1\<close> the retry loop of either orchestrator calls
  \<open>get_direct_url\<close> at most \<open>max_retries\<close> times; when the item ends as a failure it
  called it exactly \<open>max_retries\<close> times; and when attempt \<open>k\<close> is the first to return a
  URL that is neither \<open>None\<close> nor empty, the loop made exactly \<open>k + 1\<close> calls and
  returns the result of that attempt.
\<close>

theorem retry_loop_bounded:
  assumes "1 \<le> mr"
  shows "(\<exists>u f tr. retry_loop b mr y vid q [0..<nat mr] ((None, None), tr0) = Inr ((u, f), tr0 @ tr) \<and>
            n_calls tr \<le> nat mr \<and>
            (\<not> truthy u \<longrightarrow> n_calls tr = nat mr) \<and>
            (\<forall>k<nat mr. attempt_ok y vid q k \<and> (\<forall>j<k. \<not> attempt_ok y vid q j) \<longrightarrow>
               n_calls tr = Suc k \<and> (u, f) = attempt_result y vid q k)) \<and>
         (resolve_video_url y v q mr = Inr (Failure t, trf) \<longrightarrow> n_calls trf = nat mr) \<and>
         (resolve_video_url y v q mr = Inr (vr, trr) \<longrightarrow> n_calls trr \<le> nat mr) \<and>
         (process_video c y q d mr n idx v st1 = Inr st2 \<longrightarrow>
            n_calls (trace st2) \<le> n_calls (trace st1) + nat mr \<and>
            (failed (res st2) \<noteq> failed (res st1) \<longrightarrow>
               n_calls (trace st2) = n_calls (trace st1) + nat mr))"
proof (intro conjI impI)
  obtain u f m where
    loop: "retry_loop b mr y vid q [0..<nat mr] ((None, None), tr0) =
       Inr ((u, f), tr0 @ attempts_trace (GetDirectUrl vid q) b m)"
    and le: "m \<le> nat mr"
    and fail: "\<not> truthy u \<longrightarrow> m = nat mr \<and> (\<forall>j<nat mr. \<not> attempt_ok y vid q j)"
    and first: "\<forall>k<nat mr. attempt_ok y vid q k \<and> (\<forall>j<k. \<not> attempt_ok y vid q j) \<longrightarrow>
           m = Suc k \<and> (u, f) = attempt_result y vid q k"
    by (rule retry_loop_summary[of b mr y vid q tr0]) blast
  show "\<exists>u f tr. retry_loop b mr y vid q [0..<nat mr] ((None, None), tr0) = Inr ((u, f), tr0 @ tr) \<and>
            n_calls tr \<le> nat mr \<and>
            (\<not> truthy u \<longrightarrow> n_calls tr = nat mr) \<and>
            (\<forall>k<nat mr. attempt_ok y vid q k \<and> (\<forall>j<k. \<not> attempt_ok y vid q j) \<longrightarrow>
               n_calls tr = Suc k \<and> (u, f) = attempt_result y vid q k)"
    using loop le fail first
    by (intro exI[of _ u] exI[of _ f] exI[of _ "attempts_trace (GetDirectUrl vid q) b m"])
       (simp add: n_calls_attempts_trace)
next
  assume run: "resolve_video_url y v q mr = Inr (Failure t, trf)"
  obtain u f m where
    loop: "retry_loop (1 / 2) mr y (v_id v) q [0..<nat mr] ((None, None), []) =
       Inr ((u, f), [] @ attempts_trace (GetDirectUrl (v_id v) q) (1 / 2) m)"
    and fail: "\<not> truthy u \<longrightarrow> m = nat mr \<and> (\<forall>j<nat mr. \<not> attempt_ok y (v_id v) q j)"
    by (rule retry_loop_summary[of "1 / 2" mr y "v_id v" q "[]"]) blast
  from resolve_video_url_unfold[OF loop] run
  have "\<not> truthy u" and "trf = attempts_trace (GetDirectUrl (v_id v) q) (1 / 2) m"
    by (auto split: if_splits sum.splits)
  with fail show "n_calls trf = nat mr"
    by (simp add: n_calls_attempts_trace)
next
  assume run: "resolve_video_url y v q mr = Inr (vr, trr)"
  obtain u f m where
    loop: "retry_loop (1 / 2) mr y (v_id v) q [0..<nat mr] ((None, None), []) =
       Inr ((u, f), [] @ attempts_trace (GetDirectUrl (v_id v) q) (1 / 2) m)"
    and le: "m \<le> nat mr"
    by (rule retry_loop_summary[of "1 / 2" mr y "v_id v" q "[]"]) blast
  from resolve_video_url_unfold[OF loop] run
  have "trr = attempts_trace (GetDirectUrl (v_id v) q) (1 / 2) m"
    by (auto split: if_splits sum.splits)
  with le show "n_calls trr \<le> nat mr"
    by (simp add: n_calls_attempts_trace)
next
  assume run: "process_video c y q d mr n idx v st1 = Inr st2"
  obtain u f m where
    loop: "retry_loop (d * (1 / 2)) mr y (v_id v) q [0..<nat mr] ((None, None), trace st1) =
       Inr ((u, f), trace st1 @ attempts_trace (GetDirectUrl (v_id v) q) (d * (1 / 2)) m)"
    and le: "m \<le> nat mr"
    and fail: "\<not> truthy u \<longrightarrow> m = nat mr \<and> (\<forall>j<nat mr. \<not> attempt_ok y (v_id v) q j)"
    by (rule retry_loop_summary[of "d * (1 / 2)" mr y "v_id v" q "trace st1"]) blast
  from process_video_unfold[OF loop, where c = c and n = n and idx = idx] run
  have tr: "trace st2 = trace st1 @ attempts_trace (GetDirectUrl (v_id v) q) (d * (1 / 2)) m @
           (if idx < n then [Sleep d] else [])"
    and f: "truthy u \<longrightarrow> failed (res st2) = failed (res st1)"
    by (auto simp: append_success_def split: if_splits sum.splits)
  have calls: "n_calls (trace st2) = n_calls (trace st1) + m"
    unfolding tr by (simp add: n_calls_append n_calls_attempts_trace, simp add: n_calls_def)
  with le show "n_calls (trace st2) \<le> n_calls (trace st1) + nat mr" by simp
  show "n_calls (trace st2) = n_calls (trace st1) + nat mr"
    if "failed (res st2) \<noteq> failed (res st1)"
    using that f fail calls by auto
qed


theorem retry_loop_bounded_witness:
  "(1::int) \<le> 3 \<and> \<not> attempt_ok flaky_service ''x'' ''best'' 0 \<and> attempt_ok flaky_service ''x'' ''best'' 1 \<and>
   n_calls (snd (projr (retry_loop (1 / 2) 3 flaky_service ''x'' ''best'' [0..<nat 3]
                          ((None, None), [])))) = 2 \<and>
   resolve_video_url (\<lambda>attempt. sample_service) video_b ''best'' 3 =
     Inr (Failure ''B'',
          [GetDirectUrl ''b'' ''best'', Sleep (1 / 2), GetDirectUrl ''b'' ''best'', Sleep (1 / 2),
           GetDirectUrl ''b'' ''best'']) \<and>
   n_calls [GetDirectUrl ''b'' ''best'', Sleep (1 / 2), GetDirectUrl ''b'' ''best'', Sleep (1 / 2),
            GetDirectUrl ''b'' ''best''] = nat 3"
proof -
  have h0: "(1::int) \<le> 3" by simp
  have h1: "\<not> attempt_ok flaky_service ''x'' ''best'' 0" by code_simp
  have h2: "attempt_ok flaky_service ''x'' ''best'' 1" by code_simp
  have h3: "resolve_video_url (\<lambda>attempt. sample_service) video_b ''best'' 3 =
     Inr (Failure ''B'',
          [GetDirectUrl ''b'' ''best'', Sleep (1 / 2), GetDirectUrl ''b'' ''best'', Sleep (1 / 2),
           GetDirectUrl ''b'' ''best''])"
    by code_simp
  from retry_loop_bounded[OF h0, where b = "1 / 2" and y = flaky_service and vid = "''x''"
      and q = "''best''" and ?tr0.0 = "[]"]
  obtain u f tr where
    loop: "retry_loop (1 / 2) 3 flaky_service ''x'' ''best'' [0..<nat 3] ((None, None), []) =
             Inr ((u, f), [] @ tr)"
    and first: "\<forall>k<nat 3. attempt_ok flaky_service ''x'' ''best'' k \<and>
                 (\<forall>j<k. \<not> attempt_ok flaky_service ''x'' ''best'' j) \<longrightarrow>
               n_calls tr = Suc k \<and> (u, f) = attempt_result flaky_service ''x'' ''best'' k"
    by blast
  from first[rule_format, of 1] h1 h2 have "n_calls tr = 2" by simp
  with loop have c1: "n_calls (snd (projr (retry_loop (1 / 2) 3 flaky_service ''x'' ''best'' [0..<nat 3]
                          ((None, None), [])))) = 2" by simp
  from retry_loop_bounded[OF h0, where y = "\<lambda>attempt. sample_service" and v = video_b
      and q = "''best''" and t = "''B''"
      and trf = "[GetDirectUrl ''b'' ''best'', Sleep (1 / 2), GetDirectUrl ''b'' ''best'',
                  Sleep (1 / 2), GetDirectUrl ''b'' ''best'']"] h3
  have c2: "n_calls [GetDirectUrl ''b'' ''best'', Sleep (1 / 2), GetDirectUrl ''b'' ''best'', Sleep (1 / 2),
            GetDirectUrl ''b'' ''best''] = nat 3" by blast
  from h0 h1 h2 h3 c1 c2 show ?thesis by blast
qed

text \<open>
  C4, as stated, fails in the concurrent orchestrator: \<open>_resolve_video_url\<close> sleeps
  \<open>0.5\<close> seconds between attempts whatever the delay is. With a delay of 3 seconds the
  pause is 1/2, not 3/2.
\<close>

theorem async_backoff_ignores_delay:
  "map_sum id trace (process_playlist_async sample_env None ''best'' 3 2 10 [1, 0]) =
     Inr [GetDirectUrl ''a'' ''best'', GetDirectUrl ''b'' ''best'', Sleep (1 / 2),
          GetDirectUrl ''b'' ''best'', WriteFile ''My List_20240101_120000.txt''] \<and>
   (3::rat) * (1 / 2) \<noteq> 1 / 2"
  by code_simp

text \<open>
  C4, amended. In both orchestrators the retry loop of an item sleeps between two
  consecutive attempts and not after the last one. The pause is half the delay
  (\<open>delay * 0.5\<close>) in the sequential orchestrator, where the delay itself follows
  every video but the last, and the constant \<open>0.5\<close> in the concurrent one.
\<close>

theorem backoff_between_attempts:
  "(process_video c y q d mr n idx v st1 = Inr st2 \<longrightarrow>
      (\<exists>m\<le>nat mr. trace st2 =
         trace st1 @ attempts_trace (GetDirectUrl (v_id v) q) (d * (1 / 2)) m @
         (if idx < n then [Sleep d] else []))) \<and>
   (resolve_video_url y v q mr = Inr (vr, tr) \<longrightarrow>
      (\<exists>m\<le>nat mr. tr = attempts_trace (GetDirectUrl (v_id v) q) (1 / 2) m))"
proof (intro conjI impI)
  assume run: "process_video c y q d mr n idx v st1 = Inr st2"
  obtain u f m where
    loop: "retry_loop (d * (1 / 2)) mr y (v_id v) q [0..<nat mr] ((None, None), trace st1) =
       Inr ((u, f), trace st1 @ attempts_trace (GetDirectUrl (v_id v) q) (d * (1 / 2)) m)"
    and le: "m \<le> nat mr"
    by (rule retry_loop_summary[of "d * (1 / 2)" mr y "v_id v" q "trace st1"]) blast
  from process_video_unfold[OF loop, where c = c and n = n and idx = idx] run
  have "trace st2 = trace st1 @ attempts_trace (GetDirectUrl (v_id v) q) (d * (1 / 2)) m @
           (if idx < n then [Sleep d] else [])"
    by (auto simp: append_success_def split: if_splits sum.splits)
  with le show "\<exists>m\<le>nat mr. trace st2 =
         trace st1 @ attempts_trace (GetDirectUrl (v_id v) q) (d * (1 / 2)) m @
         (if idx < n then [Sleep d] else [])" by blast
next
  assume run: "resolve_video_url y v q mr = Inr (vr, tr)"
  obtain u f m where
    loop: "retry_loop (1 / 2) mr y (v_id v) q [0..<nat mr] ((None, None), []) =
       Inr ((u, f), [] @ attempts_trace (GetDirectUrl (v_id v) q) (1 / 2) m)"
    and le: "m \<le> nat mr"
    by (rule retry_loop_summary[of "1 / 2" mr y "v_id v" q "[]"]) blast
  from resolve_video_url_unfold[OF loop] run
  have "tr = attempts_trace (GetDirectUrl (v_id v) q) (1 / 2) m"
    by (auto split: if_splits sum.splits)
  with le show "\<exists>m\<le>nat mr. tr = attempts_trace (GetDirectUrl (v_id v) q) (1 / 2) m" by blast
qed

theorem backoff_between_attempts_witness:
  "process_video sample_console (\<lambda>attempt. sample_service) ''best'' 3 3 2 1 video_b initial_state =
     Inr (projr (process_video sample_console (\<lambda>attempt. sample_service) ''best'' 3 3 2 1 video_b initial_state)) \<and>
   resolve_video_url (\<lambda>attempt. sample_service) video_b ''best'' 3 =
     Inr (Failure ''B'',
          [GetDirectUrl ''b'' ''best'', Sleep (1 / 2), GetDirectUrl ''b'' ''best'', Sleep (1 / 2),
           GetDirectUrl ''b'' ''best'']) \<and>
   (\<exists>m\<le>nat 3. trace (projr (process_video sample_console (\<lambda>attempt. sample_service) ''best'' 3 3 2 1 video_b
                               initial_state)) =
      trace initial_state @ attempts_trace (GetDirectUrl (v_id video_b) ''best'') (3 * (1 / 2)) m @
      (if (1::nat) < 2 then [Sleep 3] else [])) \<and>
   (\<exists>m\<le>nat 3. [GetDirectUrl ''b'' ''best'', Sleep (1 / 2), GetDirectUrl ''b'' ''best'', Sleep (1 / 2),
                 GetDirectUrl ''b'' ''best''] =
      attempts_trace (GetDirectUrl (v_id video_b) ''best'') (1 / 2) m)"
proof -
  have "\<not> isl (process_video sample_console (\<lambda>attempt. sample_service) ''best'' 3 3 2 1 video_b initial_state)"
    by code_simp
  then have h1: "process_video sample_console (\<lambda>attempt. sample_service) ''best'' 3 3 2 1 video_b initial_state =
     Inr (projr (process_video sample_console (\<lambda>attempt. sample_service) ''best'' 3 3 2 1 video_b initial_state))"
    by simp
  have h2: "resolve_video_url (\<lambda>attempt. sample_service) video_b ''best'' 3 =
     Inr (Failure ''B'',
          [GetDirectUrl ''b'' ''best'', Sleep (1 / 2), GetDirectUrl ''b'' ''best'', Sleep (1 / 2),
           GetDirectUrl ''b'' ''best''])"
    by code_simp
  note t = backoff_between_attempts[where c = sample_console
      and y = "\<lambda>attempt. sample_service" and q = "''best''" and d = 3 and mr = 3 and n = 2
      and idx = 1 and v = video_b and ?st1.0 = initial_state
      and ?st2.0 = "projr (process_video sample_console (\<lambda>attempt. sample_service) ''best'' 3 3 2 1
                            video_b initial_state)"
      and vr = "Failure ''B''"
      and tr = "[GetDirectUrl ''b'' ''best'', Sleep (1 / 2), GetDirectUrl ''b'' ''best'',
                 Sleep (1 / 2), GetDirectUrl ''b'' ''best'']"]
  from t h1 h2 show ?thesis by blast
qed


subsection \<open>The success flag\<close>

lemma write_output_success:
  assumes "write_output e out st = Inr st'" and "\<not> success (res st)"
  shows "success (res st') \<longleftrightarrow> video_data st \<noteq> [] \<and> env_io_error e = None"
  using assms
  by (auto simp: write_output_def report_error_def add_error_def write_to_file_def Let_def
           split: sum.splits if_splits option.splits)

text \<open>
  C8, as stated, fails: when writing the output file raises, the report has
  \<open>success = False\<close> although one video was resolved.
\<close>

theorem write_failure_clears_success:
  "map_sum id res
     (process_playlist (sample_env\<lparr>env_io_error := Some (OtherError ''disk full'')\<rparr>)
        None ''best'' (3 / 2) 3) =
     Inr \<lparr>success = False, output_file = None, total_videos = 2, successful = 1, failed = 1,
          errors = [''Failed to write output file: disk full'']\<rparr>"
  by code_simp

text \<open>
  C8, amended. For a run of either orchestrator on a playlist that is not empty and
  that returns a report, \<open>success\<close> is true if and only if at least one video was
  resolved and writing the output file did not raise; failed videos alone never make
  the run unsuccessful.
\<close>

theorem success_flag:
  assumes "env_videos e = Inr videos" and "videos \<noteq> []"
  shows "(process_playlist e out q d mr = Inr r \<longrightarrow>
            (success (res r) \<longleftrightarrow> 0 < successful (res r) \<and> env_io_error e = None)) \<and>
         (mset order = mset [0..<length videos] \<longrightarrow>
          process_playlist_async e out q d mr mw order = Inr r' \<longrightarrow>
            (success (res r') \<longleftrightarrow> 0 < successful (res r') \<and> env_io_error e = None))"
proof (intro conjI impI)
  assume run: "process_playlist e out q d mr = Inr r"
  from process_playlist_steps[OF assms run] obtain st1 where
    t: "tally (initial_state\<lparr>res := (res initial_state)\<lparr>total_videos := int (length videos)\<rparr>\<rparr>)
       st1 (length videos)" and w: "write_output e out st1 = Inr r" by blast
  from tally_initial[OF t] have ns: "\<not> success (res st1)"
    and c: "successful (res st1) = int (length (video_data st1))" by simp_all
  from write_output_success[OF w ns] write_output_keeps[OF w] c
  show "success (res r) \<longleftrightarrow> 0 < successful (res r) \<and> env_io_error e = None" by simp
next
  assume perm: "mset order = mset [0..<length videos]"
    and run: "process_playlist_async e out q d mr mw order = Inr r'"
  from process_playlist_async_steps[OF assms perm run] obtain st1 where
    t: "tally (initial_state\<lparr>res := (res initial_state)\<lparr>total_videos := int (length videos)\<rparr>\<rparr>)
       st1 (length videos)" and w: "write_output e out st1 = Inr r'" by blast
  from tally_initial[OF t] have ns: "\<not> success (res st1)"
    and c: "successful (res st1) = int (length (video_data st1))" by simp_all
  from write_output_success[OF w ns] write_output_keeps[OF w] c
  show "success (res r') \<longleftrightarrow> 0 < successful (res r') \<and> env_io_error e = None" by simp
qed

theorem success_flag_witness:
  "env_videos sample_env = Inr [video_a, video_b] \<and> [video_a, video_b] \<noteq> [] \<and>
   mset [1, 0] = mset [0..<length [video_a, video_b]] \<and>
   \<not> isl (process_playlist sample_env None ''best'' (3 / 2) 3) \<and>
   \<not> isl (process_playlist_async sample_env None ''best'' (3 / 2) 3 10 [1, 0]) \<and>
   (success (res (projr (process_playlist sample_env None ''best'' (3 / 2) 3))) \<longleftrightarrow>
      0 < successful (res (projr (process_playlist sample_env None ''best'' (3 / 2) 3))) \<and>
      env_io_error sample_env = None) \<and>
   (success (res (projr (process_playlist_async sample_env None ''best'' (3 / 2) 3 10 [1, 0]))) \<longleftrightarrow>
      0 < successful (res (projr (process_playlist_async sample_env None ''best'' (3 / 2) 3 10 [1, 0]))) \<and>
      env_io_error sample_env = None)"
proof -
  have h1: "env_videos sample_env = Inr [video_a, video_b]"
    by (simp add: sample_env_def)
  have h2: "[video_a, video_b] \<noteq> []" by simp
  have h3: "mset [1, 0] = mset [0..<length [video_a, video_b]]"
    by (simp add: upt_rec)
  have h4: "\<not> isl (process_playlist sample_env None ''best'' (3 / 2) 3)"
    by code_simp
  have h5: "\<not> isl (process_playlist_async sample_env None ''best'' (3 / 2) 3 10 [1, 0])"
    by code_simp
  from h4 have r: "process_playlist sample_env None ''best'' (3 / 2) 3 =
      Inr (projr (process_playlist sample_env None ''best'' (3 / 2) 3))" by simp
  from h5 have r': "process_playlist_async sample_env None ''best'' (3 / 2) 3 10 [1, 0] =
      Inr (projr (process_playlist_async sample_env None ''best'' (3 / 2) 3 10 [1, 0]))" by simp
  note t = success_flag[OF h1 h2, where out = None and q = "''best''" and d = "3 / 2" and mr = 3
      and order = "[1, 0]" and mw = 10
      and r = "projr (process_playlist sample_env None ''best'' (3 / 2) 3)"
      and r' = "projr (process_playlist_async sample_env None ''best'' (3 / 2) 3 10 [1, 0])"]
  from t r r' h3 h1 h2 h4 h5 show ?thesis by blast
qed

subsection \<open>The number of workers\<close>

text \<open>
  C9. \<open>main\<close> exits with code 1, before any orchestrator runs, when the requested
  number of workers is below 1; a number above 20 becomes 20; so the number of workers
  the concurrent orchestrator is called with, and creates its pool with, lies between 1
  and 20.
\<close>

theorem validate_args_workers:
  "(a_workers a < 1 \<longrightarrow> validate_args a = Inl 1 \<and> main e order a = 1) \<and>
   (validate_args b = Inr b' \<longrightarrow>
      1 \<le> a_workers b' \<and> a_workers b' \<le> 20 \<and> a_workers b' = min 20 (a_workers b) \<and>
      (a_use_async b' \<longrightarrow>
         main e order b =
           (case process_playlist_async e (a_output_file b') (a_quality b') (a_delay b')
                   (a_retries b') (a_workers b') order of
              Inl ex \<Rightarrow> 1
            | Inr st \<Rightarrow> if success (res st) then 0 else 1))) \<and>
   (startswith (a_playlist_url c) ''http'' \<longrightarrow> contains (a_playlist_url c) ''list='' \<longrightarrow>
    20 < a_workers c \<longrightarrow> (\<exists>c'. validate_args c = Inr c' \<and> a_workers c' = 20))"
  by (auto simp: validate_args_def main_def Let_def split: if_splits)

theorem validate_args_workers_witness:
  "a_workers (sample_args\<lparr>a_workers := 0\<rparr>) < 1 \<and>
   validate_args (sample_args\<lparr>a_workers := 0\<rparr>) = Inl 1 \<and>
   validate_args sample_args = Inr (sample_args\<lparr>a_workers := 20\<rparr>) \<and>
   startswith (a_playlist_url sample_args) ''http'' \<and>
   contains (a_playlist_url sample_args) ''list='' \<and> 20 < a_workers sample_args \<and>
   1 \<le> a_workers (sample_args\<lparr>a_workers := 20\<rparr>) \<and>
   a_workers (sample_args\<lparr>a_workers := 20\<rparr>) \<le> 20 \<and>
   (\<exists>c'. validate_args sample_args = Inr c' \<and> a_workers c' = 20)"
proof -
  have h1: "a_workers (sample_args\<lparr>a_workers := 0\<rparr>) < 1" by simp
  have h2: "validate_args sample_args = Inr (sample_args\<lparr>a_workers := 20\<rparr>)"
    by (simp add: validate_args_def sample_args_def startswith_def)
  have h3: "startswith (a_playlist_url sample_args) ''http''"
    by (simp add: sample_args_def startswith_def)
  have h4: "contains (a_playlist_url sample_args) ''list=''"
    by (simp add: sample_args_def startswith_def)
  have h5: "20 < a_workers sample_args" by (simp add: sample_args_def)
  note t = validate_args_workers[where a = "sample_args\<lparr>a_workers := 0\<rparr>" and b = sample_args
      and b' = "sample_args\<lparr>a_workers := 20\<rparr>" and c = sample_args]
  from t h1 have c1: "validate_args (sample_args\<lparr>a_workers := 0\<rparr>) = Inl 1" by blast
  from t h2 have c2: "1 \<le> a_workers (sample_args\<lparr>a_workers := 20\<rparr>) \<and>
      a_workers (sample_args\<lparr>a_workers := 20\<rparr>) \<le> 20" by blast
  from t h3 h4 h5 have c3: "\<exists>c'. validate_args sample_args = Inr c' \<and> a_workers c' = 20" by blast
  from h1 h2 h3 h4 h5 c1 c2 c3 show ?thesis by blast
qed

subsection \<open>File names\<close>

lemma replace_char_keeps: "c \<noteq> r \<Longrightarrow> c \<notin> set s \<Longrightarrow> c \<notin> set (replace_char x r s)"
  by (auto simp: replace_char_def)

lemma replace_char_removes: "c \<noteq> r \<Longrightarrow> c \<notin> set (replace_char c r s)"
  by (auto simp: replace_char_def)

lemma fold_replace_keeps:
  "c \<noteq> r \<Longrightarrow> c \<notin> set s \<Longrightarrow> c \<notin> set (fold (\<lambda>char f. replace_char char r f) cs s)"
  by (induction cs arbitrary: s) (simp_all add: replace_char_keeps)

lemma fold_replace_removes:
  "c \<noteq> r \<Longrightarrow> c \<in> set cs \<Longrightarrow> c \<notin> set (fold (\<lambda>char f. replace_char char r f) cs s)"
proof (induction cs arbitrary: s)
  case Nil
  then show ?case by simp
next
  case (Cons x cs)
  show ?case
  proof (cases "c = x")
    case True
    with Cons.prems(1) show ?thesis
      by (simp add: fold_replace_keeps replace_char_removes)
  next
    case False
    with Cons show ?thesis by simp
  qed
qed

lemma rev_dropWhile_rev: "\<exists>k. rev (dropWhile P (rev xs)) = take k xs"
proof -
  have "rev (dropWhile P (rev xs)) =
        take (length xs - length (takeWhile P (rev xs))) xs"
    by (simp add: dropWhile_eq_drop rev_drop)
  then show ?thesis by blast
qed

lemma strip_prefix: "\<exists>k. strip chars s = take k (dropWhile (\<lambda>c. c \<in> set chars) s)"
  unfolding strip_def by (rule rev_dropWhile_rev)

lemma set_strip: "set (strip chars s) \<subseteq> set s"
proof -
  from strip_prefix obtain k where
    "strip chars s = take k (dropWhile (\<lambda>c. c \<in> set chars) s)" by blast
  then show ?thesis
    by (auto dest: in_set_takeD set_dropWhileD)
qed

lemma hd_strip: "strip chars s \<noteq> [] \<Longrightarrow> hd (strip chars s) \<notin> set chars"
proof -
  assume ne: "strip chars s \<noteq> []"
  from strip_prefix obtain k where
    k: "strip chars s = take k (dropWhile (\<lambda>c. c \<in> set chars) s)" by blast
  with ne have "0 < k" and d: "dropWhile (\<lambda>c. c \<in> set chars) s \<noteq> []" by auto
  then have "hd (strip chars s) = hd (dropWhile (\<lambda>c. c \<in> set chars) s)"
    by (simp add: k)
  with hd_dropWhile[OF d] show ?thesis by simp
qed

text \<open>
  What \<open>sanitize_filename\<close> does guarantee: none of the invalid characters, at most
  200 characters, never empty, and neither a space nor a dot at the front.
\<close>

lemma sanitize_filename_holds:
  "set (sanitize_filename s) \<inter> set invalid_chars = {} \<and>
   length (sanitize_filename s) \<le> 200 \<and>
   sanitize_filename s \<noteq> [] \<and>
   hd (sanitize_filename s) \<notin> set ''. ''"
proof -
  define f1 where "f1 = fold (\<lambda>char f. replace_char char (CHR ''_'') f) invalid_chars s"
  define f2 where "f2 = strip ''. '' f1"
  define f3 where "f3 = (if length f2 > 200 then take 200 f2 else f2)"
  have r: "sanitize_filename s = (if f3 = [] then ''output'' else f3)"
    by (simp add: sanitize_filename_def Let_def f1_def f2_def f3_def)
  have u: "CHR ''_'' \<notin> set invalid_chars" by (simp add: invalid_chars_def)
  have 1: "c \<notin> set f1" if "c \<in> set invalid_chars" for c
  proof -
    from that u have "c \<noteq> CHR ''_''" by blast
    from fold_replace_removes[OF this that] show ?thesis by (simp add: f1_def)
  qed
  have 2: "set f2 \<subseteq> set f1" unfolding f2_def by (rule set_strip)
  have "set f3 \<subseteq> set f2" unfolding f3_def by (auto dest: in_set_takeD)
  with 1 2 have 3: "set f3 \<inter> set invalid_chars = {}" by blast
  have len: "length f3 \<le> 200" unfolding f3_def by simp
  have hd3: "hd f3 \<notin> set ''. ''" if "f3 \<noteq> []"
  proof -
    from that have ne: "f2 \<noteq> []" unfolding f3_def by (auto split: if_splits)
    from ne have "strip ''. '' f1 \<noteq> []" unfolding f2_def .
    from hd_strip[OF this] have "hd f2 \<notin> set ''. ''" unfolding f2_def .
    moreover have "hd f3 = hd f2" unfolding f3_def by simp
    ultimately show ?thesis by simp
  qed
  show ?thesis
  proof (cases "f3 = []")
    case True
    have "set ''output'' \<inter> set invalid_chars = {}" by (simp add: invalid_chars_def)
    moreover have "length ''output'' \<le> 200" "hd ''output'' \<notin> set ''. ''" "''output'' \<noteq> []"
      by simp_all
    ultimately show ?thesis unfolding r using True by simp
  next
    case False
    with 3 len hd3 show ?thesis unfolding r by simp
  qed
qed

text \<open>
  C10 does not hold of the code: \<open>sanitize_filename\<close> strips spaces and dots before it
  cuts the name to 200 characters, so the cut can leave a space at the end. On 199
  letters followed by a space and a letter the result ends with the space. The rest of
  the claim holds, as shown above.
\<close>

theorem sanitize_filename_trailing_space:
  "sanitize_filename (replicate 199 (CHR ''a'') @ '' b'') = replicate 199 (CHR ''a'') @ '' '' \<and>
   last (sanitize_filename (replicate 199 (CHR ''a'') @ '' b'')) = CHR '' ''"
  by code_simp


subsection \<open>The two orchestrators on the same service\<close>

lemma retry_loop_result_indep:
  "map_sum id fst (retry_loop b mr y vid q as (r, tr)) =
   map_sum id fst (retry_loop b' mr y vid q as (r, tr'))"
proof (induction as arbitrary: r tr tr')
  case Nil
  then show ?case by simp
next
  case (Cons a as)
  obtain u f where uf: "attempt_result y vid q a = (u, f)" by (cases "attempt_result y vid q a")
  from Cons.IH[of "(u, f)"] show ?case
    by (simp add: get_direct_url_Inr uf)
qed

lemma retry_loop_truthy:
  assumes "retry_loop b mr y vid q [0..<nat mr] ((None, None), tr) = Inr ((u, f), tr')"
  shows "truthy u \<longleftrightarrow> (\<exists>k<nat mr. attempt_ok y vid q k)"
proof (cases rule: retry_loop_range[of mr y vid q b "(None, None)" tr])
  case exhausted
  with assms have "u = fst (if nat mr = 0 then (None, None) else attempt_result y vid q (nat mr - 1))"
    by simp
  moreover have "\<not> truthy (fst (if nat mr = 0 then (None, None)
                                else attempt_result y vid q (nat mr - 1)))"
  proof (cases "nat mr = 0")
    case True
    then show ?thesis by (simp add: truthy_def)
  next
    case False
    with exhausted(1) have "\<not> attempt_ok y vid q (nat mr - 1)" by simp
    with False show ?thesis by (simp add: attempt_ok_def)
  qed
  ultimately show ?thesis using exhausted(1) by simp
next
  case (resolved k)
  with assms have "u = fst (attempt_result y vid q k)" by simp
  with resolved(1,2) show ?thesis by (auto simp: attempt_ok_def)
qed

lemma tallied_Nil: "tallied [] st = st"
  by (simp add: tallied_def successes_def failures_def)

lemma tallied_success:
  "tallied (Inr (Success t u fi, tr) # fs) st =
     tallied fs (append_success \<lparr>vd_title = t, vd_url = u, vd_format_info = fi\<rparr> st)"
  by (simp add: tallied_def successes_def failures_def append_success_def add.assoc)

lemma tallied_failure:
  "tallied (Inr (Failure t, tr) # fs) st = tallied fs (append_failure t st)"
  by (simp add: tallied_def successes_def failures_def append_failure_def add.assoc)

lemma tallied_trace: "tallied fs (st\<lparr>trace := T\<rparr>) = (tallied fs st)\<lparr>trace := T\<rparr>"
  by (simp add: tallied_def)

lemma collect_closed:
  "collect c fs st = Inr st' \<Longrightarrow> (\<forall>f\<in>set fs. \<not> isl f) \<and> st' = tallied fs st"
proof (induction fs arbitrary: st)
  case Nil
  then show ?case by (simp add: tallied_Nil)
next
  case (Cons f fs)
  show ?case
  proof (cases f)
    case (Inl ex)
    with Cons.prems show ?thesis by simp
  next
    case (Inr p)
    obtain vr tr where p: "p = (vr, tr)" by (cases p)
    show ?thesis
    proof (cases vr)
      case (Success t u fi)
      with Cons.prems Inr p
      have "collect c fs (append_success \<lparr>vd_title = t, vd_url = u, vd_format_info = fi\<rparr> st) = Inr st'"
        by simp
      from Cons.IH[OF this] show ?thesis
        by (simp add: Inr p Success tallied_success)
    next
      case (Failure t)
      with Cons.prems Inr p have "collect c fs (append_failure t st) = Inr st'"
        by (simp split: if_splits)
      from Cons.IH[OF this] show ?thesis
        by (simp add: Inr p Failure tallied_failure)
    qed
  qed
qed

text \<open>One turn of the sequential loop counts what the worker for the same video returns.\<close>

lemma process_video_as_future:
  assumes "process_video c y q d mr n idx v st = Inr st'"
  shows "\<not> isl (resolve_video_url y v q mr) \<and>
         (\<exists>T. st' = (tallied [resolve_video_url y v q mr] st)\<lparr>trace := T\<rparr>)"
proof -
  obtain u f ta where
    la: "retry_loop (1 / 2) mr y (v_id v) q [0..<nat mr] ((None, None), []) = Inr ((u, f), ta)"
    using retry_loop_Inr[of "1 / 2" mr y "v_id v" q "[0..<nat mr]" "((None, None), [])"] by auto
  obtain u' f' ts where
    ls: "retry_loop (d * (1 / 2)) mr y (v_id v) q [0..<nat mr] ((None, None), trace st) =
           Inr ((u', f'), ts)"
    using retry_loop_Inr[of "d * (1 / 2)" mr y "v_id v" q "[0..<nat mr]" "((None, None), trace st)"]
    by auto
  from retry_loop_result_indep[of "1 / 2" mr y "v_id v" q "[0..<nat mr]" "(None, None)" "[]"
      "d * (1 / 2)" "trace st"] la ls
  have same: "u' = u" "f' = f" by simp_all
  note a = resolve_video_url_unfold[OF la]
  note s = process_video_unfold[OF ls[unfolded same], where c = c and n = n and idx = idx]
  show ?thesis
  proof (cases "truthy u")
    case False
    with a s assms show ?thesis
      by (auto simp: tallied_failure tallied_Nil split: if_splits)
  next
    case True
    show ?thesis
    proof (cases "add_filesize_str f")
      case (Inl ex)
      with True s assms show ?thesis by simp
    next
      case (Inr fi)
      with True a s assms show ?thesis
        by (auto simp: tallied_success tallied_Nil)
    qed
  qed
qed

lemma tallied_Cons: "\<not> isl f \<Longrightarrow> tallied (f # fs) st = tallied fs (tallied [f] st)"
proof -
  assume "\<not> isl f"
  then obtain vr tr where f: "f = Inr (vr, tr)" by (cases f) auto
  show ?thesis
    by (cases vr) (simp_all add: f tallied_success tallied_failure tallied_Nil)
qed

lemma resolve_all_Cons:
  "resolve_all c y q d mr n idx (v # vs) st = Inr st' \<Longrightarrow>
   \<exists>st1. process_video c (y idx) q d mr n idx v st = Inr st1 \<and>
         resolve_all c y q d mr n (Suc idx) vs st1 = Inr st'"
  by (auto simp: leave_progress_def split: sum.splits if_splits)

lemma resolve_all_closed:
  "resolve_all c (\<lambda>idx attempt. g) q d mr n idx vs st = Inr st' \<Longrightarrow>
   (\<forall>v\<in>set vs. \<not> isl (resolve_video_url (\<lambda>attempt. g) v q mr)) \<and>
   (\<exists>T. st' = (tallied (map (\<lambda>v. resolve_video_url (\<lambda>attempt. g) v q mr) vs) st)\<lparr>trace := T\<rparr>)"
proof (induction vs arbitrary: idx st)
  case Nil
  then have "st' = st\<lparr>trace := trace st\<rparr>" by simp
  then have "\<exists>T. st' = st\<lparr>trace := T\<rparr>" by (rule exI)
  then show ?case by (simp add: tallied_Nil)
next
  case (Cons v vs)
  let ?F = "\<lambda>v. resolve_video_url (\<lambda>attempt. g) v q mr"
  from resolve_all_Cons[OF Cons.prems] obtain st1 where
    1: "process_video c (\<lambda>attempt. g) q d mr n idx v st = Inr st1" and
    2: "resolve_all c (\<lambda>idx attempt. g) q d mr n (Suc idx) vs st1 = Inr st'" by blast
  from process_video_as_future[OF 1] obtain T where
    nv: "\<not> isl (?F v)" and st1: "st1 = (tallied [?F v] st)\<lparr>trace := T\<rparr>" by blast
  from Cons.IH[OF 2] obtain T' where
    rest: "\<forall>v\<in>set vs. \<not> isl (?F v)" and
    st': "st' = (tallied (map ?F vs) st1)\<lparr>trace := T'\<rparr>" by blast
  from st' st1 have "st' = (tallied (map ?F (v # vs)) st)\<lparr>trace := T'\<rparr>"
    by (simp add: tallied_trace tallied_Cons[OF nv, of "map ?F vs" st])
  with nv rest show ?case by auto
qed

lemma submit_all_det:
  "submit_all (\<lambda>idx attempt. g) q mr videos =
     map (\<lambda>v. resolve_video_url (\<lambda>attempt. g) v q mr) videos"
proof -
  have "map (\<lambda>(idx, v). resolve_video_url (\<lambda>attempt. g) v q mr) (zip xs videos) =
        map (\<lambda>v. resolve_video_url (\<lambda>attempt. g) v q mr) videos"
    if "length xs = length videos" for xs :: "nat list"
    using that by (induction xs videos rule: list_induct2) simp_all
  from this[of "[1..<Suc (length videos)]"] show ?thesis
    unfolding submit_all_def by (simp del: upt_Suc)
qed

lemma completed_mset:
  assumes "mset order = mset [0..<length fs]"
  shows "mset (map (\<lambda>i. fs ! i) order) = mset fs"
proof -
  have "mset (map (\<lambda>i. fs ! i) order) = image_mset (\<lambda>i. fs ! i) (mset order)" by simp
  also have "\<dots> = mset (map (\<lambda>i. fs ! i) [0..<length fs])" using assms by simp
  also have "\<dots> = mset fs" by (simp add: map_nth)
  finally show ?thesis .
qed


lemma ex_less_const: "(\<exists>k<n::nat. P) \<longleftrightarrow> 0 < n \<and> P"
  by auto

lemma attempt_ok_det:
  "attempt_ok (\<lambda>attempt. g) vid q k = attempt_ok (\<lambda>attempt. g) vid q 0"
  by (simp add: attempt_ok_def attempt_result_def)

text \<open>The worker for a video, when the answer of the service depends on the request only.\<close>

lemma future_det:
  obtains (raised) "isl (resolve_video_url (\<lambda>attempt. g) v q mr)"
  | (resolved) u fi tr where
      "resolve_video_url (\<lambda>attempt. g) v q mr = Inr (Success (v_title v) u fi, tr)"
      and "id_resolves g q mr (v_id v)"
  | (unresolved) tr where
      "resolve_video_url (\<lambda>attempt. g) v q mr = Inr (Failure (v_title v), tr)"
      and "\<not> id_resolves g q mr (v_id v)"
proof -
  obtain u f ta where
    la: "retry_loop (1 / 2) mr (\<lambda>attempt. g) (v_id v) q [0..<nat mr] ((None, None), []) =
           Inr ((u, f), ta)"
    using retry_loop_Inr[of "1 / 2" mr "\<lambda>attempt. g" "v_id v" q "[0..<nat mr]" "((None, None), [])"]
    by auto
  have "truthy u \<longleftrightarrow> (\<exists>k<nat mr. attempt_ok (\<lambda>attempt. g) (v_id v) q k)"
    by (rule retry_loop_truthy[OF la])
  also have "\<dots> \<longleftrightarrow> (\<exists>k<nat mr. attempt_ok (\<lambda>attempt. g) (v_id v) q 0)"
    using attempt_ok_det[of g "v_id v" q] by blast
  also have "\<dots> \<longleftrightarrow> 0 < nat mr \<and> attempt_ok (\<lambda>attempt. g) (v_id v) q 0"
    by (rule ex_less_const)
  also have "\<dots> \<longleftrightarrow> id_resolves g q mr (v_id v)"
    by (simp add: id_resolves_def)
  finally have t: "truthy u \<longleftrightarrow> id_resolves g q mr (v_id v)" .
  note a = resolve_video_url_unfold[OF la]
  show ?thesis
  proof (cases "truthy u")
    case False
    with a t unresolved show ?thesis by simp
  next
    case True
    show ?thesis
    proof (cases "add_filesize_str f")
      case (Inl ex)
      with True a raised show ?thesis by simp
    next
      case (Inr fi)
      with True a t resolved show ?thesis by simp
    qed
  qed
qed

lemma tallied_titles:
  "\<forall>v\<in>set vs. \<not> isl (resolve_video_url (\<lambda>attempt. g) v q mr) \<Longrightarrow>
   map vd_title (successes (map (\<lambda>v. resolve_video_url (\<lambda>attempt. g) v q mr) vs)) =
     map v_title (filter (\<lambda>v. id_resolves g q mr (v_id v)) vs)"
proof (induction vs)
  case Nil
  then show ?case by (simp add: successes_def)
next
  case (Cons v vs)
  then have IH: "map vd_title (successes (map (\<lambda>v. resolve_video_url (\<lambda>attempt. g) v q mr) vs)) =
     map v_title (filter (\<lambda>v. id_resolves g q mr (v_id v)) vs)"
    and nv: "\<not> isl (resolve_video_url (\<lambda>attempt. g) v q mr)" by simp_all
  show ?case
  proof (cases rule: future_det[of g v q mr])
    case raised
    with nv show ?thesis by simp
  next
    case (resolved u fi tr)
    with IH show ?thesis by (simp add: successes_def)
  next
    case (unresolved tr)
    with IH show ?thesis by (simp add: successes_def)
  qed
qed

lemma successes_mset: "mset fs = mset fs' \<Longrightarrow> mset (successes fs) = mset (successes fs')"
  by (simp add: successes_def)

lemma failures_mset: "mset fs = mset fs' \<Longrightarrow> mset (failures fs) = mset (failures fs')"
  by (simp add: failures_def)

lemma write_output_agree:
  assumes "res s = res a" and "video_data s = [] \<longleftrightarrow> video_data a = []"
    and "write_output e out s = Inr s'" and "write_output e out a = Inr a'"
  shows "res s' = res a'"
  using assms
  by (auto simp: write_output_def write_to_file_def report_error_def add_error_def Let_def
           split: sum.splits option.splits if_splits)

text \<open>
  Let the service answer by the request only (a fixed result for every video id) and
  let the same list of videos be given to both orchestrators, the concurrent one
  completing its futures in any order. When both return, they hold the same resolved
  entries and the same failed titles up to order, and the same report. The resolved
  entries are those of the videos whose id the service resolves, in the order of the
  playlist in the sequential orchestrator.
\<close>

lemma modes_agree_when_both_return:
  assumes "env_videos e = Inr videos" and "env_ydl e = (\<lambda>idx attempt. g)"
    and "mset order = mset [0..<length videos]"
    and rs: "process_playlist e out q d mr = Inr s"
    and ra: "process_playlist_async e out q d mr mw order = Inr a"
  shows "mset (video_data s) = mset (video_data a) \<and>
         set (video_data s) = set (video_data a) \<and>
         mset (failed_videos s) = mset (failed_videos a) \<and>
         res s = res a \<and>
         map vd_title (video_data s) =
           map v_title (filter (\<lambda>v. id_resolves g q mr (v_id v)) videos) \<and>
         mset (map vd_title (video_data a)) =
           mset (map v_title (filter (\<lambda>v. id_resolves g q mr (v_id v)) videos))"
proof (cases "videos = []")
  case True
  with assms(1) rs ra have "s = a" and "video_data s = []"
    by (auto simp: process_playlist_def process_playlist_async_def report_error_def
        add_error_def initial_state_def Let_def split: if_splits)
  with True show ?thesis by simp
next
  case False
  let ?F = "\<lambda>v. resolve_video_url (\<lambda>attempt. g) v q mr"
  let ?fs = "map ?F videos"
  let ?fs' = "map (\<lambda>i. ?fs ! i) order"
  let ?st = "initial_state\<lparr>res := (res initial_state)\<lparr>total_videos := int (length videos)\<rparr>\<rparr>"
  have sub: "submit_all (env_ydl e) q mr videos = ?fs"
    by (simp add: assms(2) submit_all_det)
  from assms(3) have perm: "mset ?fs' = mset ?fs"
    using completed_mset[of order ?fs] by simp
  from rs assms(1,2) False obtain s1 where
    loop: "resolve_all (env_console e) (\<lambda>idx attempt. g) q d mr (length videos) 1 videos ?st =
             Inr s1" and ws: "write_output e out s1 = Inr s"
    by (auto simp: process_playlist_def report_error_def Let_def split: sum.splits if_splits)
  from ra assms(1) False sub obtain a0 where
    coll: "collect (env_console e) ?fs' ?st = Inr a0" and
    wa: "write_output e out (a0\<lparr>trace := concat (map trace_of ?fs)\<rparr>) = Inr a"
    by (auto simp: process_playlist_async_def report_error_def Let_def
             split: sum.splits if_splits)
  from resolve_all_closed[OF loop] obtain T where
    all: "\<forall>v\<in>set videos. \<not> isl (?F v)" and s1: "s1 = (tallied ?fs ?st)\<lparr>trace := T\<rparr>" by blast
  from collect_closed[OF coll] have a0: "a0 = tallied ?fs' ?st" by blast
  let ?a1 = "a0\<lparr>trace := concat (map trace_of ?fs)\<rparr>"
  have ms: "mset (successes ?fs) = mset (successes ?fs')"
    using perm by (rule successes_mset[symmetric])
  have mf: "mset (failures ?fs) = mset (failures ?fs')"
    using perm by (rule failures_mset[symmetric])
  from ms have ls: "length (successes ?fs) = length (successes ?fs')" by (rule mset_eq_length)
  from mf have lf: "length (failures ?fs) = length (failures ?fs')" by (rule mset_eq_length)
  have vs: "video_data s1 = successes ?fs" "video_data ?a1 = successes ?fs'"
    and fv: "failed_videos s1 = failures ?fs" "failed_videos ?a1 = failures ?fs'"
    unfolding s1 a0 by (simp_all add: tallied_def initial_state_def)
  have r1: "res s1 = res ?a1"
    unfolding s1 a0 using ls lf by (simp add: tallied_def)
  from ls vs have em: "video_data s1 = [] \<longleftrightarrow> video_data ?a1 = []" by auto
  from write_output_agree[OF r1 em ws wa] have r: "res s = res a" .
  from write_output_keeps[OF ws] vs fv
  have s: "video_data s = successes ?fs" "failed_videos s = failures ?fs" by simp_all
  from write_output_keeps[OF wa] vs fv
  have a: "video_data a = successes ?fs'" "failed_videos a = failures ?fs'" by simp_all
  have t: "map vd_title (video_data s) =
          map v_title (filter (\<lambda>v. id_resolves g q mr (v_id v)) videos)"
    unfolding s by (rule tallied_titles[OF all])
  have m: "mset (video_data s) = mset (video_data a)" using s a ms by simp
  then have "mset (map vd_title (video_data s)) = mset (map vd_title (video_data a))"
    by simp
  with t have ta: "mset (map vd_title (video_data a)) =
          mset (map v_title (filter (\<lambda>v. id_resolves g q mr (v_id v)) videos))" by simp
  from m have "set (video_data s) = set (video_data a)" by (rule mset_eq_setD)
  with m s a mf r t ta show ?thesis by simp
qed

text \<open>
  C3 does not hold of the code: the sequential orchestrator puts the title of every video
  into the description of the progress bar, which rich renders as markup when the
  \<open>with Progress\<close> block is left; the concurrent one prints the titles of failed videos
  only. On a playlist of one video that the service resolves and whose title is
  \<open>[/x]\<close>, the sequential run ends with a \<open>MarkupError\<close> and the concurrent run returns
  the video as resolved.
\<close>

theorem tagged_title_splits_modes:
  "process_playlist tagged_video_env None ''best'' (3 / 2) 3 = Inl MarkupError \<and>
   map_sum id (\<lambda>st. (map vd_title (video_data st), successful (res st), success (res st)))
     (process_playlist_async tagged_video_env None ''best'' (3 / 2) 3 10 [0]) =
     Inr ([''[/x]''], 1, True)"
  by code_simp

end
